theory Spec2Isabelle
  imports Main "HOL-Library.Sublist"
begin

section \<open>Python strings\<close>

text \<open>
  A Python \<open>str\<close> is a sequence of Unicode code points; \<open>len\<close>, indexing, slicing,
  \<open>in\<close> and \<open>index\<close> all count code points. A string is therefore a list of code points
  (natural numbers), and the Korean literals of \<open>app.py\<close> are written out as their code
  points. ASCII literals are written as HOL strings and converted with \<open>ascii\<close>.
\<close>

type_synonym ustr = "nat list"

definition ascii :: "string \<Rightarrow> ustr" where
  "ascii s = map of_char s"

text \<open>
  \<open>str.lower()\<close>, \<open>str.upper()\<close> and \<open>str.capitalize()\<close> belong to the Python library and
  follow the case tables of Unicode: \<open>lower\<close> folds every cased letter, is sensitive to the
  context (the final sigma) and can change the length (\<open>U+0130\<close> becomes two code points),
  \<open>capitalize\<close> puts the first code point in title case and lower-cases the rest. They are
  parameters of the model, carried in a record; nothing is assumed about them.
\<close>

record casing =
  lower :: "ustr \<Rightarrow> ustr"
  upper :: "ustr \<Rightarrow> ustr"
  capitalize :: "ustr \<Rightarrow> ustr"

text \<open>
  \<open>str.strip()\<close> removes leading and trailing white space; \<open>isspace\<close> lists the code points
  for which CPython's \<open>str.isspace()\<close> holds.
\<close>

definition isspace :: "nat \<Rightarrow> bool" where
  "isspace c \<longleftrightarrow>
     (9 \<le> c \<and> c \<le> 13) \<or> (28 \<le> c \<and> c \<le> 32) \<or> c = 0x85 \<or> c = 0xA0 \<or> c = 0x1680 \<or>
     (0x2000 \<le> c \<and> c \<le> 0x200A) \<or> c = 0x2028 \<or> c = 0x2029 \<or> c = 0x202F \<or>
     c = 0x205F \<or> c = 0x3000"

definition strip :: "ustr \<Rightarrow> ustr" where
  "strip s = rev (dropWhile isspace (rev (dropWhile isspace s)))"

text \<open>
  \<open>s.replace(old, new)\<close>: the occurrences of \<open>old\<close> are replaced from left to right, without
  overlap; for an empty \<open>old\<close> Python puts \<open>new\<close> before every code point and at the end.
\<close>

function replace :: "ustr \<Rightarrow> ustr \<Rightarrow> ustr \<Rightarrow> ustr" where
  "replace old new s =
     (if old = [] then new @ concat (map (\<lambda>c. c # new) s)
      else if s = [] then []
      else if prefix old s then new @ replace old new (drop (length old) s)
      else hd s # replace old new (tl s))"
  by pat_completeness auto
termination
  by (relation "measure (\<lambda>(old, new, s). length s)") auto

declare replace.simps [simp del]

text \<open>
  \<open>s.index(sub)\<close>: the least position at which \<open>sub\<close> occurs in \<open>s\<close>, or \<open>ValueError\<close>
  (\<open>None\<close>) when it occurs nowhere. \<open>sub in s\<close> is \<open>sublist sub s\<close>.
\<close>

fun index :: "ustr \<Rightarrow> ustr \<Rightarrow> nat option" where
  "index [] sub = (if sub = [] then Some 0 else None)"
| "index (c # cs) sub =
     (if prefix sub (c # cs) then Some 0 else map_option Suc (index cs sub))"


section \<open>Constants of \<open>app.py\<close>\<close>

text \<open>
  The sentinel of an absent field, \<open>U+C815 U+BCF4 U+0020 U+C5C6 U+C74C\<close> (``no information''),
  the sentinel of an unknown ingredient (``ingredient unknown''), and the text before the
  keyword in the composed label (``registered drug (ingredient: '').
\<close>

definition NO_INFO :: ustr where
  "NO_INFO = [0xC815, 0xBCF4, 0x20, 0xC5C6, 0xC74C]"

definition NO_INGREDIENT :: ustr where
  "NO_INGREDIENT = [0xC131, 0xBD84, 0x20, 0xC815, 0xBCF4, 0x20, 0xC5C6, 0xC74C]"

definition LABEL_PREFIX :: ustr where
  "LABEL_PREFIX = [0xB4F1, 0xB85D, 0xB41C, 0x20, 0xC57D, 0x20, 0x28, 0xC131, 0xBD84, 0x3A, 0x20]"

text \<open>
  \<open>DRUG_INGREDIENT_MAP\<close>, in the order of the source: nine Korean trade or generic names,
  each with its Korean ingredient name (Tylenol, Geworin, Pancol-A, Aspirin, EZN6, Brufen,
  acetaminophen, ibuprofen, naproxen).
\<close>

definition ACETAMINOPHEN_KO :: ustr where
  "ACETAMINOPHEN_KO = [0xC544, 0xC138, 0xD2B8, 0xC544, 0xBBF8, 0xB178, 0xD39C]"

definition IBUPROFEN_KO :: ustr where
  "IBUPROFEN_KO = [0xC774, 0xBD80, 0xD504, 0xB85C, 0xD39C]"

definition NAPROXEN_KO :: ustr where
  "NAPROXEN_KO = [0xB098, 0xD504, 0xB85D, 0xC13C]"

definition TYLENOL_KO :: ustr where
  "TYLENOL_KO = [0xD0C0, 0xC774, 0xB808, 0xB180]"

definition DRUG_INGREDIENT_MAP :: "(ustr \<times> ustr) list" where
  "DRUG_INGREDIENT_MAP =
     [(TYLENOL_KO, ACETAMINOPHEN_KO),
      ([0xAC8C, 0xBCF4, 0xB9B0],
         [0xC774, 0xC18C, 0xD504, 0xB85C, 0xD544, 0xC548, 0xD2F0, 0xD53C, 0xB9B0]),
      ([0xD310, 0xCF5C, 0xC5D0, 0xC774], ACETAMINOPHEN_KO),
      ([0xC544, 0xC2A4, 0xD53C, 0xB9B0], [0xC544, 0xC138, 0xD2F8, 0xC0B4, 0xB9AC, 0xC2E4, 0xC0B0]),
      ([0xC774, 0xC9C0, 0xC5D4, 0x36], IBUPROFEN_KO),
      ([0xBD80, 0xB8E8, 0xD39C], IBUPROFEN_KO),
      (ACETAMINOPHEN_KO, ACETAMINOPHEN_KO),
      (IBUPROFEN_KO, IBUPROFEN_KO),
      (NAPROXEN_KO, NAPROXEN_KO)]"

section \<open>Raw formulary items and the record normalizer\<close>

text \<open>
  A field value of a parsed JSON item: \<open>null\<close>, a string, or any other JSON value, which
  the code only ever turns into text with \<open>str\<close> and which is therefore carried as that text.
  An element of the items array is a JSON object (a dictionary) or something else, on which
  \<open>item.get\<close> raises \<open>AttributeError\<close>.
\<close>

datatype fval = Null | Str ustr | Other ustr

fun py_str :: "fval \<Rightarrow> ustr" where
  "py_str Null = ascii ''None''"
| "py_str (Str s) = s"
| "py_str (Other s) = s"

datatype item = Obj "ustr \<rightharpoonup> fval" | NonObj

datatype error = AttributeError | TypeError | KeyError | RequestException

text \<open>\<open>item.get(key)\<close>: \<open>None\<close> for an absent key.\<close>

definition dict_get :: "(ustr \<rightharpoonup> fval) \<Rightarrow> ustr \<Rightarrow> fval" where
  "dict_get d key = (case d key of None \<Rightarrow> Null | Some v \<Rightarrow> v)"

fun safe_extract :: "casing \<Rightarrow> item \<Rightarrow> ustr \<Rightarrow> error + ustr" where
  "safe_extract C NonObj key = Inl AttributeError"
| "safe_extract C (Obj d) key =
     (let v = dict_get d key in
      if v = Null \<or> lower C (py_str v) \<in> set [ascii ''none'', ascii ''null'', []]
      then Inr NO_INFO
      else Inr (strip (replace (ascii ''</p>'') [] (replace (ascii ''<p>'') [] (py_str v)))))"

text \<open>
  The normalized record. The source builds a dictionary with the Korean keys for effect,
  dosage, precaution, contraindication (the interaction text), ingredient and drug name,
  and \<open>itemSeq\<close>; the drug name and \<open>itemSeq\<close> are copied from the item unchanged.
\<close>

record drug_info =
  effect :: ustr
  dosage :: ustr
  precaution :: ustr
  contraindication :: ustr
  ingredient_info :: ustr
  product_name :: fval
  itemSeq :: fval

definition bind_err :: "error + 'a \<Rightarrow> ('a \<Rightarrow> error + 'b) \<Rightarrow> error + 'b" where
  "bind_err r f = (case r of Inl e \<Rightarrow> Inl e | Inr v \<Rightarrow> f v)"

fun extract_drug_info :: "casing \<Rightarrow> item \<Rightarrow> ustr \<Rightarrow> error + drug_info" where
  "extract_drug_info C it search_term =
     bind_err (safe_extract C it (ascii ''efcyQesitm'')) (\<lambda>e.
     bind_err (safe_extract C it (ascii ''useMethodQesitm'')) (\<lambda>u.
     bind_err (safe_extract C it (ascii ''atpnWarnQesitm'')) (\<lambda>a.
     bind_err (safe_extract C it (ascii ''intrcQesitm'')) (\<lambda>i.
     bind_err (safe_extract C it (ascii ''mainItemIngr'')) (\<lambda>m.
       (case it of
          NonObj \<Rightarrow> Inl AttributeError
        | Obj d \<Rightarrow>
            Inr \<lparr>effect = e, dosage = u, precaution = a, contraindication = i,
                 ingredient_info = m,
                 product_name = (case d (ascii ''itemName'') of
                                None \<Rightarrow> Str search_term | Some v \<Rightarrow> v),
                 itemSeq = dict_get d (ascii ''itemSeq'')\<rparr>))))))"


section \<open>The formulary resolver\<close>

text \<open>
  The parsed response body, in the shape the code inspects. A header is a JSON object, given by
  what \<open>.get('resultCode')\<close> returns, or another value (\<open>.get\<close> raises). A body is a JSON
  object with or without the key \<open>items\<close>, or another value: then \<open>'items' not in body\<close>
  raises \<open>TypeError\<close> (\<open>None\<close>), or is a substring or membership test that fails
  (\<open>Some False\<close>) or succeeds (\<open>Some True\<close>, and \<open>body['items']\<close> raises). The value of
  \<open>items\<close> is a list, a falsy value that is not a list, or a truthy value that is not a list:
  iterating it raises or yields values without \<open>.get\<close>, and so does \<open>items[0]\<close>.
\<close>

datatype header = HeaderObj fval | HeaderOther

datatype items_val = ItemList "item list" | ItemsFalsy | ItemsOther

datatype body = BodyObj "items_val option" | BodyOther "bool option"

datatype search_data = DataObj "header option" "body option" | DataOther

text \<open>
  What the transport gives for one GET: \<open>requests.get\<close> raises, \<open>raise_for_status\<close> raises,
  \<open>response.json()\<close> raises \<open>JSONDecodeError\<close>, or the body parses.
\<close>

datatype response = RequestFailed | StatusError | NotJson | Json search_data

type_synonym params = "(ustr \<times> ustr) list"

text \<open>The loop of \<open>perform_search\<close> over the items; the first exception ends it.\<close>

fun extract_all :: "casing \<Rightarrow> item list \<Rightarrow> ustr \<Rightarrow> error + drug_info list" where
  "extract_all C [] original_drug_name = Inr []"
| "extract_all C (it # its) original_drug_name =
     bind_err (extract_drug_info C it original_drug_name) (\<lambda>r.
     bind_err (extract_all C its original_drug_name) (\<lambda>rs. Inr (r # rs)))"

text \<open>
  The body of the \<open>try\<close> block of \<open>perform_search\<close> after the response has arrived:
  \<open>Inl\<close> is an exception that reaches the outer \<open>except Exception\<close>, \<open>Inr None\<close> an explicit
  \<open>return None\<close>.
\<close>

fun result_code_ok :: "fval \<Rightarrow> bool" where
  "result_code_ok (Str s) = (s \<in> set [ascii ''00'', ascii ''0''])"
| "result_code_ok v = False"

fun search_try :: "casing \<Rightarrow> response \<Rightarrow> ustr \<Rightarrow> bool \<Rightarrow> error + drug_info list option" where
  "search_try C RequestFailed original_drug_name multiple_results = Inl RequestException"
| "search_try C StatusError original_drug_name multiple_results = Inl RequestException"
| "search_try C NotJson original_drug_name multiple_results = Inr None"
| "search_try C (Json DataOther) original_drug_name multiple_results = Inl AttributeError"
| "search_try C (Json (DataObj h b)) original_drug_name multiple_results =
     (case h of
        Some HeaderOther \<Rightarrow> Inl AttributeError
      | None \<Rightarrow> Inr None
      | Some (HeaderObj code) \<Rightarrow>
          if \<not> result_code_ok code then Inr None
          else (case b of
             None \<Rightarrow> Inr None
           | Some (BodyOther None) \<Rightarrow> Inl TypeError
           | Some (BodyOther (Some False)) \<Rightarrow> Inr None
           | Some (BodyOther (Some True)) \<Rightarrow> Inl TypeError
           | Some (BodyObj None) \<Rightarrow> Inr None
           | Some (BodyObj (Some ItemsFalsy)) \<Rightarrow> Inr None
           | Some (BodyObj (Some ItemsOther)) \<Rightarrow> Inl TypeError
           | Some (BodyObj (Some (ItemList items))) \<Rightarrow>
               if items = [] then Inr None
               else if multiple_results
               then bind_err (extract_all C items original_drug_name) (\<lambda>l. Inr (Some l))
               else bind_err (extract_drug_info C (hd items) original_drug_name)
                      (\<lambda>r. Inr (Some [r]))))"

text \<open>
  \<open>perform_search\<close>: one GET with the given parameters, every exception turned into \<open>None\<close>.
  The second component is the log of the GETs issued.
\<close>

definition perform_search ::
    "casing \<Rightarrow> (params \<Rightarrow> response) \<Rightarrow> params \<Rightarrow> ustr \<Rightarrow> bool \<Rightarrow>
       drug_info list option \<times> params list" where
  "perform_search C get ps original_drug_name multiple_results =
     (case search_try C (get ps) original_drug_name multiple_results of
        Inl e \<Rightarrow> (None, [ps])
      | Inr r \<Rightarrow> (r, [ps]))"

text \<open>Truth value of \<open>if drug_info_list:\<close>.\<close>

fun truthy :: "'a list option \<Rightarrow> bool" where
  "truthy None = False"
| "truthy (Some l) = (l \<noteq> [])"

definition search_params :: "ustr \<Rightarrow> ustr \<Rightarrow> ustr \<Rightarrow> params" where
  "search_params key filter_name encoded_drug_name =
     [(ascii ''serviceKey'', key), (filter_name, encoded_drug_name),
      (ascii ''type'', ascii ''json''), (ascii ''numOfRows'', ascii ''3'')]"

text \<open>
  \<open>search_drug_info\<close>. \<open>SERVICE_KEY\<close> is \<open>os.environ.get('DRUG_API_KEY')\<close>, absent or a
  string; \<open>quote\<close> is \<open>urllib.parse.quote\<close> of the standard library, \<open>get\<close> the external
  service. The debugging prints are left out.
\<close>

definition search_drug_info ::
    "casing \<Rightarrow> (ustr \<Rightarrow> ustr) \<Rightarrow> (params \<Rightarrow> response) \<Rightarrow> ustr option \<Rightarrow> ustr \<Rightarrow>
       drug_info list option \<times> params list" where
  "search_drug_info C quote get SERVICE_KEY drug_name =
     (case SERVICE_KEY of
        None \<Rightarrow> (None, [])
      | Some key \<Rightarrow>
          if key = [] then (None, [])
          else
            let encoded_drug_name = quote drug_name;
                params_item_name = search_params key (ascii ''itemName'') encoded_drug_name;
                (drug_info_list, log1) = perform_search C get params_item_name drug_name True
            in if truthy drug_info_list then (drug_info_list, log1)
               else
                 let params_ingr_name = search_params key (ascii ''ingrName'') encoded_drug_name;
                     (drug_info_list2, log2) = perform_search C get params_ingr_name drug_name True
                 in if truthy drug_info_list2 then (drug_info_list2, log1 @ log2)
                    else (None, log1 @ log2))"


section \<open>The keyword index and the interaction matcher\<close>

text \<open>
  An entry of the user's medication list, as \<open>add_drug\<close> builds it: a dictionary with the
  keys \<open>name\<close> and \<open>ingredient\<close>. A warning has the keys \<open>searched_drug\<close>, \<open>conflict_drug\<close>
  and \<open>info\<close>.
\<close>

record med =
  name :: ustr
  ingredient :: ustr

record warning =
  searched_drug :: fval
  conflict_drug :: ustr
  info :: ustr

text \<open>
  The Python set \<open>my_drug_keywords\<close> is kept as the list of its elements, without
  repetition; \<open>set_add\<close> is \<open>set.add\<close>. Every entry has both keys, so that
  \<open>drug_item.get('name', '')\<close> and \<open>drug_item.get('ingredient', '')\<close> are the two fields.
\<close>

definition set_add :: "'a \<Rightarrow> 'a list \<Rightarrow> 'a list" where
  "set_add x xs = (if x \<in> set xs then xs else xs @ [x])"

fun build_keywords :: "casing \<Rightarrow> med list \<Rightarrow> ustr list \<Rightarrow> ustr list" where
  "build_keywords C [] my_drug_keywords = my_drug_keywords"
| "build_keywords C (drug_item # rest) my_drug_keywords =
     (let drug_name = lower C (name drug_item);
          ingr = lower C (ingredient drug_item);
          kws1 = (if drug_name \<noteq> [] then set_add drug_name my_drug_keywords
                  else my_drug_keywords);
          kws2 = (if ingr \<noteq> NO_INGREDIENT then set_add ingr kws1 else kws1)
      in build_keywords C rest kws2)"

text \<open>The display label of a matched keyword (lines 166 to 170).\<close>

definition conflict_label :: "casing \<Rightarrow> ustr \<Rightarrow> ustr" where
  "conflict_label C keyword =
     (if keyword \<in> set (map (\<lambda>(k, v). lower C v) DRUG_INGREDIENT_MAP)
      then LABEL_PREFIX @ upper C keyword @ ascii '')''
      else capitalize C keyword)"

text \<open>
  The \<open>try\<close> block of lines 172 to 183: the slice of the original text at the position of
  the keyword in the lower-cased text is wrapped in \<open><b>\<close>; when \<open>index\<close> raises
  \<open>ValueError\<close> the text stays as it is. A Python slice \<open>s[a:b]\<close> is \<open>drop a (take b s)\<close>.
\<close>

definition highlight :: "ustr \<Rightarrow> ustr \<Rightarrow> ustr \<Rightarrow> ustr" where
  "highlight contra_info_original contra_info_lower keyword =
     (case index contra_info_lower keyword of
        None \<Rightarrow> contra_info_original
      | Some start_index \<Rightarrow>
          let end_index = start_index + length keyword;
              original_keyword = drop start_index (take end_index contra_info_original)
          in take start_index contra_info_original @ ascii ''<b>'' @ original_keyword @
             ascii ''</b>'' @ drop end_index contra_info_original)"

text \<open>The inner loop over the keywords, left at the first keyword found in the text.\<close>

fun match_keywords :: "casing \<Rightarrow> drug_info \<Rightarrow> ustr \<Rightarrow> ustr list \<Rightarrow> warning option" where
  "match_keywords C searched contra_info_lower [] = None"
| "match_keywords C searched contra_info_lower (keyword # rest) =
     (if sublist keyword contra_info_lower
      then Some \<lparr>searched_drug = product_name searched,
                 conflict_drug = conflict_label C keyword,
                 info = highlight (contraindication searched) contra_info_lower keyword\<rparr>
      else match_keywords C searched contra_info_lower rest)"

text \<open>The outer loop over the resolved records; \<open>warnings\<close> is the list being appended to.\<close>

fun match_records ::
    "casing \<Rightarrow> ustr list \<Rightarrow> drug_info list \<Rightarrow> warning list \<Rightarrow> warning list" where
  "match_records C keywords [] warnings = warnings"
| "match_records C keywords (searched # rest) warnings =
     (let contra_info_lower = strip (lower C (contraindication searched))
      in if contra_info_lower = NO_INFO then match_records C keywords rest warnings
         else (case match_keywords C searched contra_info_lower keywords of
                 None \<Rightarrow> match_records C keywords rest warnings
               | Some w \<Rightarrow> match_records C keywords rest (warnings @ [w])))"

text \<open>
  \<open>check_contraindications\<close>. Python iterates a set in an order that depends on the hashes of
  its elements; \<open>iter\<close> is that order, a rearrangement of the elements of the set.
\<close>

definition check_contraindications ::
    "casing \<Rightarrow> (ustr list \<Rightarrow> ustr list) \<Rightarrow> drug_info list \<Rightarrow> med list \<Rightarrow> warning list" where
  "check_contraindications C iter searched_drug_info_list my_drugs =
     (if my_drugs = [] then []
      else match_records C (iter (build_keywords C my_drugs [])) searched_drug_info_list [])"

section \<open>The medication list in the session\<close>

text \<open>
  The session either has no key \<open>my_drugs\<close> (\<open>None\<close>) or holds the list. \<open>add_drug\<close> takes
  the form field, absent or a string; \<open>remove_drug\<close> takes the name of the route and
  \<open>urllib.parse.unquote\<close> of the standard library. Each returns the session it leaves.
\<close>

definition add_drug :: "casing \<Rightarrow> ustr option \<Rightarrow> med list option \<Rightarrow> med list option" where
  "add_drug C raw_drug_input session =
     (let drug_to_add = (case raw_drug_input of
                           None \<Rightarrow> []
                         | Some s \<Rightarrow> if s \<noteq> [] then strip s else []);
          my_drugs = (case session of None \<Rightarrow> [] | Some l \<Rightarrow> l)
      in if drug_to_add \<noteq> [] then
           let ingr = (case map_of DRUG_INGREDIENT_MAP (capitalize C drug_to_add) of
                         None \<Rightarrow> NO_INGREDIENT | Some v \<Rightarrow> v);
               new_drug_item = \<lparr>name = capitalize C drug_to_add, ingredient = ingr\<rparr>;
               current_drugs_lower = map (\<lambda>d. lower C (name d)) my_drugs
           in if lower C (name new_drug_item) \<notin> set current_drugs_lower
              then Some (my_drugs @ [new_drug_item])
              else Some my_drugs
         else Some my_drugs)"

definition remove_drug ::
    "casing \<Rightarrow> (ustr \<Rightarrow> ustr) \<Rightarrow> ustr \<Rightarrow> med list option \<Rightarrow> med list option" where
  "remove_drug C unquote drug_name session =
     (let decoded_drug_name = unquote drug_name
      in case session of
           None \<Rightarrow> None
         | Some my_drugs \<Rightarrow>
             Some (filter (\<lambda>d. lower C (name d) \<noteq> lower C decoded_drug_name) my_drugs))"

definition clear_drugs :: "med list option \<Rightarrow> med list option" where
  "clear_drugs session = None"


section \<open>Notions of the specification\<close>

text \<open>
  A raw field value is null-like when it is absent, \<open>null\<close>, or a value whose lower-cased
  text is \<open>none\<close>, \<open>null\<close> or empty.
\<close>

definition null_like :: "casing \<Rightarrow> fval option \<Rightarrow> bool" where
  "null_like C raw =
     (case raw of
        None \<Rightarrow> True
      | Some v \<Rightarrow> v = Null \<or> lower C (py_str v) = ascii ''none'' \<or>
                 lower C (py_str v) = ascii ''null'' \<or> lower C (py_str v) = [])"

text \<open>
  Marked-up text: a sequence of opening paragraph tags, closing paragraph tags and single
  code points. \<open>render\<close> is the string, \<open>text_of\<close> the string without its tags; the markup is
  \<open>plain\<close> when no code point of the text is \<open><\<close>.
\<close>

datatype token = OpenP | CloseP | Ch nat

fun render :: "token list \<Rightarrow> ustr" where
  "render [] = []"
| "render (OpenP # ts) = ascii ''<p>'' @ render ts"
| "render (CloseP # ts) = ascii ''</p>'' @ render ts"
| "render (Ch c # ts) = c # render ts"

fun text_of :: "token list \<Rightarrow> ustr" where
  "text_of [] = []"
| "text_of (OpenP # ts) = text_of ts"
| "text_of (CloseP # ts) = text_of ts"
| "text_of (Ch c # ts) = c # text_of ts"

definition plain :: "token list \<Rightarrow> bool" where
  "plain ts \<longleftrightarrow> Ch 0x3C \<notin> set ts"

text \<open>
  A response with the result code \<open>code\<close> and the JSON objects \<open>ds\<close> as its items, and the
  responses that make a stage fail: the request or the status check raises, the body is not
  JSON, the header is missing, its result code is not the string \<open>00\<close> or \<open>0\<close>, or the items
  are missing or empty.
\<close>

definition service_items :: "ustr \<Rightarrow> (ustr \<rightharpoonup> fval) list \<Rightarrow> response" where
  "service_items code ds =
     Json (DataObj (Some (HeaderObj (Str code))) (Some (BodyObj (Some (ItemList (map Obj ds))))))"

fun no_items :: "body option \<Rightarrow> bool" where
  "no_items None = True"
| "no_items (Some (BodyObj None)) = True"
| "no_items (Some (BodyObj (Some (ItemList items)))) = (items = [])"
| "no_items (Some (BodyObj (Some ItemsFalsy))) = True"
| "no_items b = False"

fun stage_fails :: "response \<Rightarrow> bool" where
  "stage_fails RequestFailed = True"
| "stage_fails StatusError = True"
| "stage_fails NotJson = True"
| "stage_fails (Json (DataObj None b)) = True"
| "stage_fails (Json (DataObj (Some (HeaderObj code)) b)) =
     ((code \<noteq> Str (ascii ''00'') \<and> code \<noteq> Str (ascii ''0'')) \<or> no_items b)"
| "stage_fails r = False"

definition key_unset :: "ustr option \<Rightarrow> bool" where
  "key_unset SERVICE_KEY \<longleftrightarrow> SERVICE_KEY = None \<or> SERVICE_KEY = Some []"

text \<open>
  A record matches a keyword list when its interaction text, lower-cased and stripped, is not
  the sentinel and contains one of the keywords.
\<close>

definition matches :: "casing \<Rightarrow> ustr list \<Rightarrow> drug_info \<Rightarrow> bool" where
  "matches C keywords r \<longleftrightarrow>
     strip (lower C (contraindication r)) \<noteq> NO_INFO \<and>
     (\<exists>k \<in> set keywords. sublist k (strip (lower C (contraindication r))))"

text \<open>
  The warning of a record for the keyword \<open>k\<close>; \<open>first_match\<close> is the first keyword of the
  iteration that passes the test.
\<close>

definition warning_for :: "casing \<Rightarrow> drug_info \<Rightarrow> ustr \<Rightarrow> warning" where
  "warning_for C r k =
     \<lparr>searched_drug = product_name r, conflict_drug = conflict_label C k,
      info = highlight (contraindication r) (strip (lower C (contraindication r))) k\<rparr>"

definition first_match :: "casing \<Rightarrow> ustr list \<Rightarrow> drug_info \<Rightarrow> ustr option" where
  "first_match C keywords r =
     find (\<lambda>k. sublist k (strip (lower C (contraindication r)))) keywords"

text \<open>
  The medication list of a session, the form input as \<open>add_drug\<close> trims it, and the invariant
  of the list: no two entries have the same lower-cased name.
\<close>

definition current_drugs :: "med list option \<Rightarrow> med list" where
  "current_drugs session = (case session of None \<Rightarrow> [] | Some l \<Rightarrow> l)"

definition trimmed_input :: "ustr option \<Rightarrow> ustr" where
  "trimmed_input raw_drug_input = (case raw_drug_input of None \<Rightarrow> [] | Some s \<Rightarrow> strip s)"

definition unique_names :: "casing \<Rightarrow> med list \<Rightarrow> bool" where
  "unique_names C l \<longleftrightarrow> distinct (map (\<lambda>d. lower C (name d)) l)"

section \<open>Example inputs\<close>

text \<open>
  Case functions for the examples. They treat the letters of ASCII and of Latin-1 and
  \<open>U+0130\<close> as CPython does and leave every other code point as it is, so that they agree with
  \<open>str.lower\<close>, \<open>str.upper\<close> and \<open>str.capitalize\<close> on every string over the code points up to
  \<open>U+00FF\<close>, \<open>U+0130\<close> and the Hangul syllables.
\<close>

definition sample_lower_cp :: "nat \<Rightarrow> ustr" where
  "sample_lower_cp c =
     (if (65 \<le> c \<and> c \<le> 90) \<or> (0xC0 \<le> c \<and> c \<le> 0xDE \<and> c \<noteq> 0xD7) then [c + 32]
      else if c = 0x130 then [0x69, 0x307]
      else [c])"

definition sample_upper_cp :: "nat \<Rightarrow> ustr" where
  "sample_upper_cp c =
     (if (97 \<le> c \<and> c \<le> 122) \<or> (0xE0 \<le> c \<and> c \<le> 0xFE \<and> c \<noteq> 0xF7) then [c - 32]
      else if c = 0xDF then [0x53, 0x53]
      else if c = 0xFF then [0x178]
      else if c = 0xB5 then [0x39C]
      else [c])"

definition sample_title_cp :: "nat \<Rightarrow> ustr" where
  "sample_title_cp c = (if c = 0xDF then [0x53, 0x73] else sample_upper_cp c)"

definition sample_casing :: casing where
  "sample_casing =
     \<lparr>lower = (\<lambda>s. concat (map sample_lower_cp s)),
      upper = (\<lambda>s. concat (map sample_upper_cp s)),
      capitalize = (\<lambda>s. case s of
                           [] \<Rightarrow> []
                         | c # cs \<Rightarrow> sample_title_cp c @ concat (map sample_lower_cp cs))\<rparr>"

text \<open>
  The record that the normalizer gives for an item with the drug name \<open>nm\<close>, the interaction
  text \<open>text\<close> and no other field.
\<close>

definition record_with :: "ustr \<Rightarrow> ustr \<Rightarrow> drug_info" where
  "record_with nm text =
     \<lparr>effect = NO_INFO, dosage = NO_INFO, precaution = NO_INFO, contraindication = text,
      ingredient_info = NO_INFO, product_name = Str nm, itemSeq = Null\<rparr>"

text \<open>
  Two items of the service, the second without a name, and four services: one that answers
  the query by trade name, one that answers only the query by ingredient, one that is down,
  and one that sends items under the result code \<open>99\<close>.
\<close>

definition example_item :: "ustr \<rightharpoonup> fval" where
  "example_item =
     [ascii ''itemName'' \<mapsto> Str (ascii ''Bayer''),
      ascii ''intrcQesitm'' \<mapsto> Str (ascii ''<p>Avoid with Aspirin</p>'')]"

definition nameless_item :: "ustr \<rightharpoonup> fval" where
  "nameless_item = [ascii ''intrcQesitm'' \<mapsto> Null]"

definition service_by_name :: "params \<Rightarrow> response" where
  "service_by_name ps =
     (if map_of ps (ascii ''itemName'') \<noteq> None
      then service_items (ascii ''00'') [example_item, nameless_item]
      else RequestFailed)"

definition service_by_ingredient :: "params \<Rightarrow> response" where
  "service_by_ingredient ps =
     (if map_of ps (ascii ''ingrName'') \<noteq> None
      then service_items (ascii ''0'') [example_item]
      else NotJson)"

definition service_down :: "params \<Rightarrow> response" where
  "service_down ps =
     (if map_of ps (ascii ''itemName'') \<noteq> None then StatusError
      else Json (DataObj (Some (HeaderObj (Str (ascii ''99'')))) None))"

definition service_refusing :: "params \<Rightarrow> response" where
  "service_refusing ps = service_items (ascii ''99'') [example_item]"


text \<open>The equations that evaluate the model on concrete inputs.\<close>

lemmas ev = ascii_def strip_def isspace_def sample_casing_def sample_lower_cp_def
  sample_upper_cp_def sample_title_cp_def
  NO_INFO_def NO_INGREDIENT_def LABEL_PREFIX_def DRUG_INGREDIENT_MAP_def ACETAMINOPHEN_KO_def
  IBUPROFEN_KO_def NAPROXEN_KO_def TYLENOL_KO_def set_add_def conflict_label_def highlight_def
  check_contraindications_def dict_get_def Let_def sublist_code(3) replace.simps

section \<open>Facts about the string operations\<close>

lemma strip_Nil: "strip [] = []"
  by (simp add: strip_def)

lemma strip_idem: "strip (strip s) = strip s"
proof -
  let ?a = "dropWhile isspace s"
  let ?b = "dropWhile isspace (rev ?a)"
  have b: "dropWhile isspace ?b = ?b" by (simp add: dropWhile_idem)
  have "dropWhile isspace (rev ?b) = rev ?b"
  proof (cases "?b = []")
    case True show ?thesis unfolding True by simp
  next
    case False
    then have "rev ?a \<noteq> []" by (metis dropWhile.simps(1))
    then have a: "?a \<noteq> []" by simp
    then have "\<not> isspace (hd ?a)" by (rule hd_dropWhile)
    have "\<exists>zs. rev ?a = zs @ ?b" by (metis takeWhile_dropWhile_id)
    then obtain zs where zs: "rev ?a = zs @ ?b" ..
    then have "?a = rev ?b @ rev zs" by (metis rev_append rev_rev_ident)
    moreover have "rev ?b \<noteq> []" using False by simp
    ultimately have "hd (rev ?b) = hd ?a" by (metis hd_append2)
    with \<open>\<not> isspace (hd ?a)\<close> have "\<not> isspace (hd (rev ?b))" by simp
    then show ?thesis using \<open>rev ?b \<noteq> []\<close> by (cases "rev ?b") simp_all
  qed
  then show ?thesis by (simp add: strip_def b)
qed

lemma strip_NO_INFO: "strip NO_INFO = NO_INFO"
  by (simp add: strip_def NO_INFO_def isspace_def)

lemma replace_hit: "old \<noteq> [] \<Longrightarrow> replace old new (old @ s) = new @ replace old new s"
  by (subst replace.simps) simp

lemma replace_skip:
  "old \<noteq> [] \<Longrightarrow> hd old \<noteq> c \<Longrightarrow> replace old new (c # s) = c # replace old new s"
  by (subst replace.simps) (cases old; simp)

lemma replace_Nil: "old \<noteq> [] \<Longrightarrow> replace old new [] = []"
  by (subst replace.simps) simp

text \<open>
  On plain markup the first pass deletes the opening tags and keeps everything else, and the
  second pass deletes the closing tags: what is left is the text.
\<close>

lemma replace_open_render:
  "plain ts \<Longrightarrow> replace (ascii ''<p>'') [] (render ts) = render (filter (\<lambda>t. t \<noteq> OpenP) ts)"
proof (induction ts)
  case Nil
  show ?case by (simp add: replace_Nil ascii_def)
next
  case (Cons t ts)
  then have ih: "replace (ascii ''<p>'') [] (render ts) = render (filter (\<lambda>t. t \<noteq> OpenP) ts)"
    by (simp add: plain_def)
  show ?case
  proof (cases t)
    case OpenP
    then show ?thesis using ih replace_hit [of "ascii ''<p>''" "[]" "render ts"]
      by (simp add: ascii_def)
  next
    case CloseP
    have "replace (ascii ''<p>'') [] (ascii ''</p>'' @ render ts)
        = ascii ''</p>'' @ replace (ascii ''<p>'') [] (render ts)"
      by (subst replace.simps, simp add: ascii_def)
         (simp add: replace_skip ascii_def)
    with CloseP ih show ?thesis by simp
  next
    case (Ch c)
    with Cons.prems have "c \<noteq> 0x3C" by (auto simp: plain_def)
    then have "replace (ascii ''<p>'') [] (c # render ts)
        = c # replace (ascii ''<p>'') [] (render ts)"
      by (simp add: replace_skip ascii_def)
    with Ch ih show ?thesis by simp
  qed
qed

lemma replace_close_render:
  "plain ts \<Longrightarrow> OpenP \<notin> set ts \<Longrightarrow> replace (ascii ''</p>'') [] (render ts) = text_of ts"
proof (induction ts)
  case Nil
  show ?case by (simp add: replace_Nil ascii_def)
next
  case (Cons t ts)
  then have ih: "replace (ascii ''</p>'') [] (render ts) = text_of ts"
    by (simp add: plain_def)
  show ?case
  proof (cases t)
    case OpenP
    with Cons.prems show ?thesis by simp
  next
    case CloseP
    then show ?thesis using ih replace_hit [of "ascii ''</p>''" "[]" "render ts"]
      by (simp add: ascii_def)
  next
    case (Ch c)
    with Cons.prems have "c \<noteq> 0x3C" by (auto simp: plain_def)
    then have "replace (ascii ''</p>'') [] (c # render ts)
        = c # replace (ascii ''</p>'') [] (render ts)"
      by (simp add: replace_skip ascii_def)
    with Ch ih show ?thesis by simp
  qed
qed

lemma text_of_filter: "text_of (filter (\<lambda>t. t \<noteq> OpenP) ts) = text_of ts"
  by (induction ts rule: text_of.induct) simp_all

lemma tags_removed:
  assumes "plain ts"
  shows "replace (ascii ''</p>'') [] (replace (ascii ''<p>'') [] (render ts)) = text_of ts"
proof -
  have "plain (filter (\<lambda>t. t \<noteq> OpenP) ts)" using assms by (simp add: plain_def)
  moreover have "OpenP \<notin> set (filter (\<lambda>t. t \<noteq> OpenP) ts)" by simp
  ultimately show ?thesis
    by (simp add: replace_open_render [OF assms] replace_close_render text_of_filter)
qed

section \<open>The record normalizer\<close>

lemma safe_extract_Obj:
  "safe_extract C (Obj d) key =
     Inr (if null_like C (d key) then NO_INFO
          else strip (replace (ascii ''</p>'') [] (replace (ascii ''<p>'') [] (py_str (the (d key))))))"
  by (auto simp: null_like_def dict_get_def Let_def split: option.splits)

lemma safe_extract_trimmed: "safe_extract C (Obj d) key = Inr r \<Longrightarrow> strip r = r"
  by (auto simp: safe_extract_Obj strip_NO_INFO strip_idem simp del: safe_extract.simps
      split: if_splits)

lemma extract_drug_info_Obj:
  "extract_drug_info C (Obj d) search_term =
     Inr \<lparr>effect = projr (safe_extract C (Obj d) (ascii ''efcyQesitm'')),
          dosage = projr (safe_extract C (Obj d) (ascii ''useMethodQesitm'')),
          precaution = projr (safe_extract C (Obj d) (ascii ''atpnWarnQesitm'')),
          contraindication = projr (safe_extract C (Obj d) (ascii ''intrcQesitm'')),
          ingredient_info = projr (safe_extract C (Obj d) (ascii ''mainItemIngr'')),
          product_name = (case d (ascii ''itemName'') of None \<Rightarrow> Str search_term | Some v \<Rightarrow> v),
          itemSeq = dict_get d (ascii ''itemSeq'')\<rparr>"
  by (simp add: safe_extract_Obj bind_err_def del: safe_extract.simps)

lemma extract_drug_info_NonObj: "extract_drug_info C NonObj nm = Inl AttributeError"
  by (simp add: bind_err_def)

declare extract_drug_info.simps [simp del]

text \<open>Every record of the normalizer has a stripped interaction text.\<close>

lemma extract_drug_info_trimmed:
  assumes "extract_drug_info C it search_term = Inr r"
  shows "strip (contraindication r) = contraindication r"
proof (cases it)
  case NonObj
  with assms show ?thesis by (simp add: extract_drug_info_NonObj)
next
  case (Obj d)
  from assms have "safe_extract C (Obj d) (ascii ''intrcQesitm'') = Inr (contraindication r)"
    unfolding Obj extract_drug_info_Obj
    by (auto simp: safe_extract_Obj simp del: safe_extract.simps)
  then show ?thesis by (rule safe_extract_trimmed)
qed

text \<open>
  Claim C4, as the code has it. For every raw item that is a JSON object and every field key,
  \<open>safe_extract\<close> returns a value and never raises. The value is stripped. It is the sentinel
  \<open>NO_INFO\<close> when the raw value is null-like: absent, \<open>null\<close>, or with a lower-cased text that is
  \<open>none\<close>, \<open>null\<close> or empty. Otherwise it is the text of the value after one pass that deletes
  the occurrences of \<open><p>\<close> and one pass that deletes the occurrences of \<open></p>\<close>, stripped;
  when the text is plain markup (paragraph tags and code points other than \<open><\<close>) this is the
  text without its tags, stripped. \<open>extract_drug_info\<close> returns a record whose five text
  fields are these values.
\<close>

theorem normalization_of_objects:
  "(\<exists>r. safe_extract C (Obj d) key = Inr r \<and> strip r = r \<and>
        (null_like C (d key) \<longrightarrow> r = NO_INFO) \<and>
        (\<not> null_like C (d key) \<longrightarrow>
           r = strip (replace (ascii ''</p>'') []
                 (replace (ascii ''<p>'') [] (py_str (the (d key)))))) \<and>
        (\<not> null_like C (d key) \<and> plain ts \<and> py_str (the (d key)) = render ts \<longrightarrow>
           r = strip (text_of ts)))
   \<and> (\<exists>r. extract_drug_info C (Obj d) search_term = Inr r \<and>
          safe_extract C (Obj d) (ascii ''efcyQesitm'') = Inr (effect r) \<and>
          safe_extract C (Obj d) (ascii ''useMethodQesitm'') = Inr (dosage r) \<and>
          safe_extract C (Obj d) (ascii ''atpnWarnQesitm'') = Inr (precaution r) \<and>
          safe_extract C (Obj d) (ascii ''intrcQesitm'') = Inr (contraindication r) \<and>
          safe_extract C (Obj d) (ascii ''mainItemIngr'') = Inr (ingredient_info r))"
proof
  obtain r where r: "safe_extract C (Obj d) key = Inr r"
    by (simp add: safe_extract_Obj del: safe_extract.simps)
  have "strip r = r" using r by (rule safe_extract_trimmed)
  moreover have "null_like C (d key) \<longrightarrow> r = NO_INFO"
    using r by (auto simp: safe_extract_Obj simp del: safe_extract.simps)
  moreover have eq: "\<not> null_like C (d key) \<longrightarrow>
           r = strip (replace (ascii ''</p>'') []
                 (replace (ascii ''<p>'') [] (py_str (the (d key)))))"
    using r by (auto simp: safe_extract_Obj simp del: safe_extract.simps)
  moreover have "\<not> null_like C (d key) \<and> plain ts \<and> py_str (the (d key)) = render ts \<longrightarrow>
           r = strip (text_of ts)"
    using eq by (auto simp: tags_removed)
  ultimately show "\<exists>r. safe_extract C (Obj d) key = Inr r \<and> strip r = r \<and>
        (null_like C (d key) \<longrightarrow> r = NO_INFO) \<and>
        (\<not> null_like C (d key) \<longrightarrow>
           r = strip (replace (ascii ''</p>'') []
                 (replace (ascii ''<p>'') [] (py_str (the (d key)))))) \<and>
        (\<not> null_like C (d key) \<and> plain ts \<and> py_str (the (d key)) = render ts \<longrightarrow>
           r = strip (text_of ts))"
    using r by blast
  show "\<exists>r. extract_drug_info C (Obj d) search_term = Inr r \<and>
          safe_extract C (Obj d) (ascii ''efcyQesitm'') = Inr (effect r) \<and>
          safe_extract C (Obj d) (ascii ''useMethodQesitm'') = Inr (dosage r) \<and>
          safe_extract C (Obj d) (ascii ''atpnWarnQesitm'') = Inr (precaution r) \<and>
          safe_extract C (Obj d) (ascii ''intrcQesitm'') = Inr (contraindication r) \<and>
          safe_extract C (Obj d) (ascii ''mainItemIngr'') = Inr (ingredient_info r)"
    unfolding extract_drug_info_Obj by (simp add: safe_extract_Obj del: safe_extract.simps)
qed

theorem normalization_of_objects_witness:
  "\<not> null_like sample_casing
       ([ascii ''intrcQesitm'' \<mapsto> Str (ascii '' <p>Avoid</p><p>Aspirin</p> '')] (ascii ''intrcQesitm''))
   \<and> plain ([Ch 0x20, OpenP] @ map Ch (ascii ''Avoid'') @ [CloseP, OpenP] @
             map Ch (ascii ''Aspirin'') @ [CloseP, Ch 0x20])
   \<and> safe_extract sample_casing
       (Obj [ascii ''intrcQesitm'' \<mapsto> Str (ascii '' <p>Avoid</p><p>Aspirin</p> '')])
       (ascii ''intrcQesitm'') = Inr (ascii ''AvoidAspirin'')
   \<and> null_like sample_casing
       ([ascii ''intrcQesitm'' \<mapsto> Str (ascii ''NULL'')] (ascii ''intrcQesitm''))
   \<and> safe_extract sample_casing (Obj [ascii ''intrcQesitm'' \<mapsto> Str (ascii ''NULL'')])
       (ascii ''intrcQesitm'') = Inr NO_INFO
   \<and> safe_extract sample_casing (Obj Map.empty) (ascii ''intrcQesitm'') = Inr NO_INFO"
proof -
  let ?k = "ascii ''intrcQesitm''"
  let ?d = "[?k \<mapsto> Str (ascii '' <p>Avoid</p><p>Aspirin</p> '')]"
  let ?ts = "[Ch 0x20, OpenP] @ map Ch (ascii ''Avoid'') @ [CloseP, OpenP] @
             map Ch (ascii ''Aspirin'') @ [CloseP, Ch 0x20]"
  have n: "\<not> null_like sample_casing (?d ?k)" by (simp add: null_like_def ev)
  have p: "plain ?ts" by (simp add: plain_def ascii_def)
  have rd: "py_str (the (?d ?k)) = render ?ts" by (simp add: ascii_def)
  from normalization_of_objects [of sample_casing ?d ?k ?ts "[]"] n p rd
  have "safe_extract sample_casing (Obj ?d) ?k = Inr (strip (text_of ?ts))"
    by auto
  moreover have "strip (text_of ?ts) = ascii ''AvoidAspirin''" by (simp add: ev)
  ultimately have a: "safe_extract sample_casing (Obj ?d) ?k = Inr (ascii ''AvoidAspirin'')"
    by simp
  let ?e = "[?k \<mapsto> Str (ascii ''NULL'')]"
  have m: "null_like sample_casing (?e ?k)" by (simp add: null_like_def ev)
  from normalization_of_objects [of sample_casing ?e ?k "[]" "[]"] m
  have b: "safe_extract sample_casing (Obj ?e) ?k = Inr NO_INFO" by auto
  have "null_like sample_casing (Map.empty ?k)" by (simp add: null_like_def)
  with normalization_of_objects [of sample_casing Map.empty ?k "[]" "[]"]
  have c: "safe_extract sample_casing (Obj Map.empty) ?k = Inr NO_INFO" by auto
  from n p a m b c show ?thesis by blast
qed

text \<open>
  Claim C4 as it is written fails in two ways. An element of the items array that is not a
  JSON object makes \<open>safe_extract\<close> raise \<open>AttributeError\<close>. And the result can still hold a
  paragraph tag: one that only comes together when a tag inside it is deleted, or one in
  capital letters.
\<close>

theorem normalization_counterexample:
  "safe_extract sample_casing NonObj (ascii ''intrcQesitm'') = Inl AttributeError
   \<and> safe_extract sample_casing
       (Obj [ascii ''intrcQesitm'' \<mapsto> Str (ascii ''<<p>p>Hi<</p>/p>'')]) (ascii ''intrcQesitm'')
     = Inr (ascii ''<p>Hi</p>'')
   \<and> safe_extract sample_casing
       (Obj [ascii ''intrcQesitm'' \<mapsto> Str (ascii ''<P>x</P>'')]) (ascii ''intrcQesitm'')
     = Inr (ascii ''<P>x</P>'')"
  by (simp add: ev)

section \<open>Searching a string\<close>

lemma index_Some_prefix:
  "index s sub = Some i \<Longrightarrow> prefix sub (drop i s) \<and> (\<forall>j<i. \<not> prefix sub (drop j s))"
proof (induction s arbitrary: i)
  case Nil
  then show ?case by (simp split: if_splits)
next
  case (Cons c cs)
  show ?case
  proof (cases "prefix sub (c # cs)")
    case True
    with Cons.prems show ?thesis by simp
  next
    case False
    with Cons.prems obtain i' where i': "index cs sub = Some i'" "i = Suc i'"
      by auto
    from Cons.IH [OF i'(1)] have ih: "prefix sub (drop i' cs)" "\<forall>j<i'. \<not> prefix sub (drop j cs)"
      by simp_all
    have "\<not> prefix sub (drop j (c # cs))" if "j < i" for j
    proof (cases j)
      case 0
      with False show ?thesis by simp
    next
      case (Suc j')
      with that i'(2) ih(2) show ?thesis by simp
    qed
    with ih(1) i'(2) show ?thesis by simp
  qed
qed

lemma index_None_iff: "index s sub = None \<longleftrightarrow> \<not> sublist sub s"
  by (induction s) (auto simp: sublist_Cons_right)

lemma sublist_index: "sublist sub s \<Longrightarrow> \<exists>i. index s sub = Some i"
  using index_None_iff [of s sub] by (cases "index s sub") auto

lemma index_le_length: "index s sub = Some i \<Longrightarrow> i \<le> length s"
  by (induction s arbitrary: i) (auto split: if_splits)

section \<open>The interaction matcher\<close>

lemma match_keywords_find:
  "match_keywords C r (strip (lower C (contraindication r))) ks =
     map_option (warning_for C r) (first_match C ks r)"
  by (induction ks) (simp_all add: first_match_def warning_for_def)

lemma first_match_Some:
  "first_match C ks r = Some k \<Longrightarrow>
     k \<in> set ks \<and> sublist k (strip (lower C (contraindication r)))"
  unfolding first_match_def by (auto simp: find_Some_iff)

lemma first_match_None_iff:
  "first_match C ks r = None \<longleftrightarrow>
     \<not> (\<exists>k \<in> set ks. sublist k (strip (lower C (contraindication r))))"
  unfolding first_match_def by (auto simp: find_None_iff)

lemma match_records_acc:
  "match_records C ks rs acc = acc @ match_records C ks rs []"
proof (induction rs arbitrary: acc)
  case Nil
  show ?case by simp
next
  case (Cons r rs)
  show ?case
    using Cons.IH [of acc] Cons.IH [of "acc @ [w]" for w] Cons.IH [of "[w]" for w]
    by (auto simp: Let_def split: option.splits)
qed

lemma match_records_Cons:
  "match_records C ks (r # rs) [] =
     (if matches C ks r
      then warning_for C r (the (first_match C ks r)) # match_records C ks rs []
      else match_records C ks rs [])"
proof (cases "strip (lower C (contraindication r)) = NO_INFO")
  case True
  then show ?thesis by (simp add: matches_def)
next
  case False
  show ?thesis
  proof (cases "first_match C ks r")
    case None
    then have "\<not> matches C ks r"
      using first_match_None_iff [of C ks r] by (auto simp: matches_def)
    with None False show ?thesis
      by (simp add: match_keywords_find)
  next
    case (Some k)
    then have "matches C ks r"
      using False first_match_Some [OF Some] by (auto simp: matches_def)
    with Some False show ?thesis
      using match_records_acc [of C ks rs "[warning_for C r k]"]
      by (simp add: match_keywords_find)
  qed
qed

lemma match_records_filter:
  "match_records C ks rs [] =
     map (\<lambda>r. warning_for C r (the (first_match C ks r))) (filter (matches C ks) rs)"
proof (induction rs)
  case Nil
  show ?case by simp
next
  case (Cons r rs)
  then show ?case by (simp add: match_records_Cons del: match_records.simps)
qed

lemma match_records_single:
  "match_records C ks [r] [] =
     (if matches C ks r then [warning_for C r (the (first_match C ks r))] else [])"
  by (simp add: match_records_filter)

lemma searched_drug_warning_for: "searched_drug (warning_for C r k) = product_name r"
  by (simp add: warning_for_def)

lemma list_all2_map_eq: "list_all2 (\<lambda>w r. f w = g r) ws rs \<Longrightarrow> map f ws = map g rs"
  by (induction rule: list_all2_induct) simp_all

lemma matches_empty_keyword:
  "[] \<in> set ks \<Longrightarrow> matches C ks r \<longleftrightarrow> strip (lower C (contraindication r)) \<noteq> NO_INFO"
  by (auto simp: matches_def)

text \<open>
  Claim C2. For every list of records and every keyword list, the warnings of the matcher
  correspond one to one, in the order of the records, to the records whose interaction text,
  lower-cased by \<open>str.lower\<close> and stripped, is not the sentinel and contains at least one
  keyword: each such record gives exactly one warning, built from the first keyword of the
  iteration found in the text, and no other record gives a warning. The keywords of an index
  are lower-cased themselves, so that a keyword found in the lower-cased text occurs in the
  text in some casing.
\<close>

theorem matcher_one_warning_per_matching_record:
  "list_all2 (\<lambda>w r. \<exists>k. first_match C keywords r = Some k \<and> w = warning_for C r k)
     (match_records C keywords records []) (filter (matches C keywords) records)
   \<and> length (match_records C keywords records []) \<le> length records"
proof -
  have "\<exists>k. first_match C keywords r = Some k" if "matches C keywords r" for r
    using that first_match_None_iff [of C "keywords" r]
    by (cases "first_match C keywords r") (auto simp: matches_def)
  then have "list_all2 (\<lambda>w r. \<exists>k. first_match C keywords r = Some k \<and> w = warning_for C r k)
     (map (\<lambda>r. warning_for C r (the (first_match C keywords r)))
        (filter (matches C keywords) records))
     (filter (matches C keywords) records)"
    by (fastforce simp: list_all2_map1 list_all2_same)
  moreover have "length (filter (matches C keywords) records) \<le> length records"
    by simp
  ultimately show ?thesis by (simp add: match_records_filter)
qed

text \<open>
  In the example the third keyword and the last record have a letter beyond ASCII:
  \<open>U+00C9\<close> in the text is matched by the keyword with \<open>U+00E9\<close>.
\<close>

theorem matcher_one_warning_per_matching_record_witness:
  "match_records sample_casing
     [ascii ''tylenol'', ascii ''aspirin'', 0xE9 # ascii ''fferalgan'']
     [record_with (ascii ''A'') NO_INFO,
      record_with (ascii ''B'') (ascii ''Avoid with Aspirin''),
      record_with (ascii ''C'') (ascii ''Take with water''),
      record_with (ascii ''D'') (ascii ''not with TYLENOL or aspirin''),
      record_with (ascii ''E'') (ascii ''Avoid '' @ 0xC9 # ascii ''FFERALGAN'')] []
   = [\<lparr>searched_drug = Str (ascii ''B''), conflict_drug = ascii ''Aspirin'',
       info = ascii ''Avoid with <b>Aspirin</b>''\<rparr>,
      \<lparr>searched_drug = Str (ascii ''D''), conflict_drug = ascii ''Tylenol'',
       info = ascii ''not with <b>TYLENOL</b> or aspirin''\<rparr>,
      \<lparr>searched_drug = Str (ascii ''E''), conflict_drug = 0xC9 # ascii ''fferalgan'',
       info = ascii ''Avoid <b>'' @ 0xC9 # ascii ''FFERALGAN</b>''\<rparr>]
   \<and> filter (matches sample_casing [ascii ''tylenol'', ascii ''aspirin'', 0xE9 # ascii ''fferalgan''])
     [record_with (ascii ''A'') NO_INFO,
      record_with (ascii ''B'') (ascii ''Avoid with Aspirin''),
      record_with (ascii ''C'') (ascii ''Take with water''),
      record_with (ascii ''D'') (ascii ''not with TYLENOL or aspirin''),
      record_with (ascii ''E'') (ascii ''Avoid '' @ 0xC9 # ascii ''FFERALGAN'')]
   = [record_with (ascii ''B'') (ascii ''Avoid with Aspirin''),
      record_with (ascii ''D'') (ascii ''not with TYLENOL or aspirin''),
      record_with (ascii ''E'') (ascii ''Avoid '' @ 0xC9 # ascii ''FFERALGAN'')]"
  using matcher_one_warning_per_matching_record
    [of sample_casing "[ascii ''tylenol'', ascii ''aspirin'', 0xE9 # ascii ''fferalgan'']"
        "[record_with (ascii ''A'') NO_INFO,
          record_with (ascii ''B'') (ascii ''Avoid with Aspirin''),
          record_with (ascii ''C'') (ascii ''Take with water''),
          record_with (ascii ''D'') (ascii ''not with TYLENOL or aspirin''),
          record_with (ascii ''E'') (ascii ''Avoid '' @ 0xC9 # ascii ''FFERALGAN'')]"]
  by (simp add: matches_def record_with_def ev)

section \<open>The highlighted text\<close>

text \<open>
  The position of the keyword is found in the lower-cased, stripped text and used in the
  original text. When lower-casing and stripping leave every code point of the text at its
  position, the wrapped span is the first place at which the lower-cased text holds the
  keyword.
\<close>

lemma highlight_span:
  assumes "sublist k low" and "length low = length t"
  shows "\<exists>pre mid post. t = pre @ mid @ post \<and> length mid = length k \<and>
           take (length k) (drop (length pre) low) = k \<and>
           (\<forall>j<length pre. \<not> prefix k (drop j low)) \<and>
           highlight t low k = pre @ ascii ''<b>'' @ mid @ ascii ''</b>'' @ post"
proof -
  from sublist_index [OF assms(1)] obtain i where i: "index low k = Some i" ..
  from index_Some_prefix [OF i]
  have pre: "prefix k (drop i low)" and least: "\<forall>j<i. \<not> prefix k (drop j low)"
    by simp_all
  let ?e = "i + length k"
  let ?pre = "take i t" and ?mid = "drop i (take ?e t)" and ?post = "drop ?e t"
  from pre obtain zs where zs: "drop i low = k @ zs" by (auto simp: prefix_def)
  then have "length k \<le> length (drop i low)" by simp
  moreover have "i \<le> length t" using index_le_length [OF i] by (simp add: assms(2))
  ultimately have le: "?e \<le> length t" by (simp add: assms(2))
  have "t = take ?e t @ ?post" by simp
  also have "take ?e t = take i (take ?e t) @ ?mid" by (simp only: append_take_drop_id)
  also have "take i (take ?e t) = ?pre" by (simp add: min_def)
  finally have split: "t = ?pre @ ?mid @ ?post" by simp
  have len: "length ?pre = i" using le by simp
  have lmid: "length ?mid = length k" using le by simp
  have occ: "take (length k) (drop (length ?pre) low) = k" unfolding len by (simp add: zs)
  have hl: "highlight t low k = ?pre @ ascii ''<b>'' @ ?mid @ ascii ''</b>'' @ ?post"
    by (simp add: highlight_def i Let_def)
  from split lmid occ least len hl show ?thesis by metis
qed

lemma warning_info_when_positions_kept:
  assumes "match_keywords C r (strip (lower C (contraindication r))) ks = Some w"
    and "length (strip (lower C (contraindication r))) = length (contraindication r)"
  shows "\<exists>k pre mid post.
           k \<in> set ks \<and> contraindication r = pre @ mid @ post \<and> length mid = length k \<and>
           take (length k) (drop (length pre) (strip (lower C (contraindication r)))) = k \<and>
           (\<forall>j<length pre. \<not> prefix k (drop j (strip (lower C (contraindication r))))) \<and>
           info w = pre @ ascii ''<b>'' @ mid @ ascii ''</b>'' @ post"
proof -
  let ?low = "strip (lower C (contraindication r))"
  from assms(1) obtain k where k: "first_match C ks r = Some k" and w: "w = warning_for C r k"
    by (auto simp: match_keywords_find)
  from first_match_Some [OF k] have kin: "k \<in> set ks" and sub: "sublist k ?low"
    by simp_all
  from highlight_span [OF sub assms(2)] obtain pre mid post where
    "contraindication r = pre @ mid @ post" "length mid = length k"
    "take (length k) (drop (length pre) ?low) = k"
    "\<forall>j<length pre. \<not> prefix k (drop j ?low)"
    "highlight (contraindication r) ?low k = pre @ ascii ''<b>'' @ mid @ ascii ''</b>'' @ post"
    by blast
  moreover have "info w = highlight (contraindication r) ?low k"
    by (simp add: w warning_for_def)
  ultimately show ?thesis using kin by metis
qed

text \<open>
  Claim C3 fails in the code. \<open>str.lower\<close> turns \<open>U+0130\<close>, the capital I with a dot, into the
  two code points \<open>U+0069 U+0307\<close>, so that behind it the positions of the lower-cased text
  are one ahead of those of the original. For the stripped interaction text that is
  \<open>U+0130\<close> followed by `` aspirin'' the keyword \<open>aspirin\<close> is found at position 3 of the
  lower-cased text, and the span wrapped in the original is \<open>spirin\<close>: the \<open>info\<close> of the
  warning is \<open>U+0130\<close> followed by `` a<b>spirin</b>'', not the text with the occurrence
  \<open>aspirin\<close> wrapped.
\<close>

theorem dotted_capital_I_shifts_highlight:
  assumes "lower C (0x130 # ascii '' aspirin'') = [0x69, 0x307] @ ascii '' aspirin''"
  shows "map info (match_records C [ascii ''aspirin'']
                     [record_with nm (0x130 # ascii '' aspirin'')] [])
         = [0x130 # ascii '' a<b>spirin</b>'']"
proof -
  let ?r = "record_with nm (0x130 # ascii '' aspirin'')"
  have low: "strip (lower C (contraindication ?r)) = [0x69, 0x307] @ ascii '' aspirin''"
    by (simp add: record_with_def assms) (simp add: ev)
  have "match_keywords C ?r ([0x69, 0x307] @ ascii '' aspirin'') [ascii ''aspirin'']
      = Some \<lparr>searched_drug = Str nm, conflict_drug = conflict_label C (ascii ''aspirin''),
               info = 0x130 # ascii '' a<b>spirin</b>''\<rparr>"
    by (simp add: record_with_def ascii_def highlight_def sublist_code(3))
  moreover have "[0x69, 0x307] @ ascii '' aspirin'' \<noteq> NO_INFO"
    by (simp add: ev)
  ultimately show ?thesis
    by (simp add: low del: match_keywords.simps)
qed

theorem dotted_capital_I_shifts_highlight_witness:
  "lower sample_casing (0x130 # ascii '' aspirin'') = [0x69, 0x307] @ ascii '' aspirin''
   \<and> strip (0x130 # ascii '' aspirin'') = 0x130 # ascii '' aspirin''
   \<and> map info (match_records sample_casing [ascii ''aspirin'']
                  [record_with (ascii ''Bayer'') (0x130 # ascii '' aspirin'')] [])
     = [0x130 # ascii '' a<b>spirin</b>'']"
proof -
  have h: "lower sample_casing (0x130 # ascii '' aspirin'') = [0x69, 0x307] @ ascii '' aspirin''"
    by (simp add: ev)
  have s: "strip (0x130 # ascii '' aspirin'') = 0x130 # ascii '' aspirin''"
    by (simp add: ev)
  from dotted_capital_I_shifts_highlight [OF h, of "ascii ''Bayer''"] h s
  show ?thesis by blast
qed

section \<open>The case functions of the examples\<close>

lemma sample_lower_Nil_iff: "lower sample_casing s = [] \<longleftrightarrow> s = []"
  by (cases s) (auto simp: sample_casing_def sample_lower_cp_def)

lemma sample_lower_cp_inert:
  assumes "x < 65 \<or> (122 < x \<and> x < 0xC0) \<or> (0xFE < x \<and> x \<noteq> 0x130 \<and> x \<noteq> 0x307)"
  shows "sample_lower_cp c @ rest = x # xs \<longleftrightarrow> c = x \<and> rest = xs"
  using assms by (auto simp: sample_lower_cp_def)

lemma sample_lower_NO_INGREDIENT:
  "lower sample_casing s = NO_INGREDIENT \<longleftrightarrow> s = NO_INGREDIENT"
proof -
  have low: "lower sample_casing (c # cs) = sample_lower_cp c @ lower sample_casing cs" for c cs
    by (simp add: sample_casing_def)
  have nil: "lower sample_casing [] = []" by (simp add: sample_casing_def)
  have step: "lower sample_casing s = x # xs \<longleftrightarrow>
      (\<exists>cs. s = x # cs \<and> lower sample_casing cs = xs)"
    if "x < 65 \<or> (122 < x \<and> x < 0xC0) \<or> (0xFE < x \<and> x \<noteq> 0x130 \<and> x \<noteq> 0x307)" for s x xs
    by (cases s) (auto simp: low nil sample_lower_cp_inert [OF that])
  show ?thesis
    unfolding NO_INGREDIENT_def
    by (auto simp: step sample_lower_Nil_iff)
qed

section \<open>The keyword index\<close>

lemma set_set_add: "set (set_add x xs) = insert x (set xs)"
  by (auto simp: set_add_def)

lemma distinct_set_add: "distinct xs \<Longrightarrow> distinct (set_add x xs)"
  by (simp add: set_add_def)

lemma set_build_keywords:
  "set (build_keywords C ds acc) =
     set acc \<union> (\<lambda>d. lower C (name d)) ` {d \<in> set ds. lower C (name d) \<noteq> []}
             \<union> (\<lambda>d. lower C (ingredient d)) `
                 {d \<in> set ds. lower C (ingredient d) \<noteq> NO_INGREDIENT}"
proof (induction ds arbitrary: acc)
  case Nil
  show ?case by simp
next
  case (Cons d ds)
  show ?case
    by (simp add: Cons.IH Let_def set_set_add) blast
qed

lemma distinct_build_keywords: "distinct acc \<Longrightarrow> distinct (build_keywords C ds acc)"
  by (induction ds arbitrary: acc) (simp_all add: Let_def distinct_set_add)

text \<open>
  Claim C7. The keyword index of a medication list is the set of the lower-cased names that
  are not empty and of the lower-cased ingredients that are not the sentinel
  \<open>NO_INGREDIENT\<close>, and no keyword is held twice. \<open>str.lower\<close> gives the empty string for the
  empty string only and the sentinel, which is Hangul and spaces, for the sentinel only; with
  that the index is the set of the lower-cased names of the entries with a non-empty name and
  of the lower-cased ingredients of the entries whose ingredient is not the sentinel. For the
  empty medication list \<open>check_contraindications\<close> returns no warning, whatever the records
  are.
\<close>

theorem keyword_index_contents:
  "set (build_keywords C my_drugs []) =
     (\<lambda>d. lower C (name d)) ` {d \<in> set my_drugs. lower C (name d) \<noteq> []} \<union>
     (\<lambda>d. lower C (ingredient d)) `
       {d \<in> set my_drugs. lower C (ingredient d) \<noteq> NO_INGREDIENT}
   \<and> distinct (build_keywords C my_drugs [])
   \<and> ((\<forall>s. lower C s = [] \<longleftrightarrow> s = []) \<and>
       (\<forall>s. lower C s = NO_INGREDIENT \<longleftrightarrow> s = NO_INGREDIENT) \<longrightarrow>
         set (build_keywords C my_drugs []) =
           (\<lambda>d. lower C (name d)) ` {d \<in> set my_drugs. name d \<noteq> []} \<union>
           (\<lambda>d. lower C (ingredient d)) ` {d \<in> set my_drugs. ingredient d \<noteq> NO_INGREDIENT})
   \<and> check_contraindications C iter records [] = []"
  by (simp add: set_build_keywords distinct_build_keywords check_contraindications_def)

theorem keyword_index_contents_witness:
  "(\<forall>s. lower sample_casing s = [] \<longleftrightarrow> s = [])
   \<and> (\<forall>s. lower sample_casing s = NO_INGREDIENT \<longleftrightarrow> s = NO_INGREDIENT)
   \<and> set (build_keywords sample_casing
            [\<lparr>name = ascii ''Tylenol'', ingredient = ascii ''Acetaminophen''\<rparr>] [])
     = {ascii ''tylenol'', ascii ''acetaminophen''}
   \<and> build_keywords sample_casing
        [\<lparr>name = ascii ''Tylenol'', ingredient = ascii ''Acetaminophen''\<rparr>,
         \<lparr>name = ascii ''TYLENOL'', ingredient = NO_INGREDIENT\<rparr>,
         \<lparr>name = [], ingredient = ascii ''acetaminophen''\<rparr>,
         \<lparr>name = 0xC9 # ascii ''fferalgan'', ingredient = NO_INGREDIENT\<rparr>] []
     = [ascii ''tylenol'', ascii ''acetaminophen'', 0xE9 # ascii ''fferalgan'']
   \<and> check_contraindications sample_casing (\<lambda>ks. ks)
       [record_with (ascii ''Bayer'') (ascii ''Avoid with Aspirin'')] [] = []"
proof -
  let ?m = "[\<lparr>name = ascii ''Tylenol'', ingredient = ascii ''Acetaminophen''\<rparr>]"
  let ?rs = "[record_with (ascii ''Bayer'') (ascii ''Avoid with Aspirin'')]"
  have h1: "\<forall>s. lower sample_casing s = [] \<longleftrightarrow> s = []"
    by (simp add: sample_lower_Nil_iff)
  have h2: "\<forall>s. lower sample_casing s = NO_INGREDIENT \<longleftrightarrow> s = NO_INGREDIENT"
    by (simp add: sample_lower_NO_INGREDIENT)
  from keyword_index_contents [of sample_casing ?m "\<lambda>ks. ks" ?rs] h1 h2
  have idx: "set (build_keywords sample_casing ?m []) =
           (\<lambda>d. lower sample_casing (name d)) ` {d \<in> set ?m. name d \<noteq> []} \<union>
           (\<lambda>d. lower sample_casing (ingredient d)) ` {d \<in> set ?m. ingredient d \<noteq> NO_INGREDIENT}"
    and none: "check_contraindications sample_casing (\<lambda>ks. ks) ?rs [] = []"
    by blast+
  have "{d \<in> set ?m. name d \<noteq> []} = set ?m" by (auto simp: ascii_def)
  moreover have "{d \<in> set ?m. ingredient d \<noteq> NO_INGREDIENT} = set ?m" by (auto simp: ev)
  ultimately have "set (build_keywords sample_casing ?m []) =
      {lower sample_casing (ascii ''Tylenol''), lower sample_casing (ascii ''Acetaminophen'')}"
    unfolding idx by auto
  then have a: "set (build_keywords sample_casing ?m []) =
      {ascii ''tylenol'', ascii ''acetaminophen''}"
    by (simp add: ev)
  have b: "build_keywords sample_casing
        [\<lparr>name = ascii ''Tylenol'', ingredient = ascii ''Acetaminophen''\<rparr>,
         \<lparr>name = ascii ''TYLENOL'', ingredient = NO_INGREDIENT\<rparr>,
         \<lparr>name = [], ingredient = ascii ''acetaminophen''\<rparr>,
         \<lparr>name = 0xC9 # ascii ''fferalgan'', ingredient = NO_INGREDIENT\<rparr>] []
     = [ascii ''tylenol'', ascii ''acetaminophen'', 0xE9 # ascii ''fferalgan'']"
    by (simp add: ev)
  from h1 h2 a b none show ?thesis by blast
qed

text \<open>
  Claim C10. When an entry of the medication list has the empty string as its ingredient,
  the empty string, which \<open>str.lower\<close> leaves empty, is a keyword of the index, and for every
  iteration order of the index the matcher gives one warning, in order, for every record
  whose interaction text, lower-cased and stripped, is not the sentinel \<open>NO_INFO\<close>, whatever
  that text mentions.
\<close>

theorem empty_ingredient_matches_everything:
  assumes "d \<in> set my_drugs" and "ingredient d = []" and "lower C [] = []"
    and "set (iter (build_keywords C my_drugs [])) = set (build_keywords C my_drugs [])"
  shows "[] \<in> set (build_keywords C my_drugs []) \<and>
         list_all2 (\<lambda>w r. searched_drug w = product_name r)
           (check_contraindications C iter records my_drugs)
           (filter (\<lambda>r. strip (lower C (contraindication r)) \<noteq> NO_INFO) records)"
proof
  have "lower C (ingredient d) \<noteq> NO_INGREDIENT"
    using assms(2,3) by (simp add: NO_INGREDIENT_def)
  with assms(1) have "lower C (ingredient d) \<in> set (build_keywords C my_drugs [])"
    unfolding set_build_keywords by blast
  then show emp: "[] \<in> set (build_keywords C my_drugs [])"
    by (simp add: assms(2,3))
  let ?ks = "iter (build_keywords C my_drugs [])"
  from emp assms(4) have "[] \<in> set ?ks" by simp
  then have "filter (matches C ?ks) records =
      filter (\<lambda>r. strip (lower C (contraindication r)) \<noteq> NO_INFO) records"
    by (simp add: matches_empty_keyword cong: filter_cong)
  moreover have "my_drugs \<noteq> []" using assms(1) by auto
  ultimately show "list_all2 (\<lambda>w r. searched_drug w = product_name r)
           (check_contraindications C iter records my_drugs)
           (filter (\<lambda>r. strip (lower C (contraindication r)) \<noteq> NO_INFO) records)"
    by (simp add: check_contraindications_def match_records_filter list_all2_map1
        list_all2_same searched_drug_warning_for)
qed

theorem empty_ingredient_matches_everything_witness:
  "\<lparr>name = ascii ''Vitamin'', ingredient = []\<rparr> \<in> set [\<lparr>name = ascii ''Vitamin'', ingredient = []\<rparr>]
   \<and> lower sample_casing [] = []
   \<and> [] \<in> set (build_keywords sample_casing [\<lparr>name = ascii ''Vitamin'', ingredient = []\<rparr>] [])
   \<and> map searched_drug (check_contraindications sample_casing (\<lambda>ks. ks)
         [record_with (ascii ''A'') (ascii ''Take with water''),
          record_with (ascii ''B'') NO_INFO,
          record_with (ascii ''C'') (ascii ''Avoid with Aspirin'')]
         [\<lparr>name = ascii ''Vitamin'', ingredient = []\<rparr>])
     = [Str (ascii ''A''), Str (ascii ''C'')]"
proof -
  let ?d = "\<lparr>name = ascii ''Vitamin'', ingredient = []\<rparr>"
  let ?rs = "[record_with (ascii ''A'') (ascii ''Take with water''),
          record_with (ascii ''B'') NO_INFO,
          record_with (ascii ''C'') (ascii ''Avoid with Aspirin'')]"
  have h1: "?d \<in> set [?d]" by simp
  have h2: "ingredient ?d = []" by simp
  have h3: "lower sample_casing [] = []" by (simp add: sample_casing_def)
  have h4: "set ((\<lambda>ks. ks) (build_keywords sample_casing [?d] []))
      = set (build_keywords sample_casing [?d] [])" by simp
  from empty_ingredient_matches_everything
         [of ?d "[?d]" sample_casing "\<lambda>ks. ks" ?rs, OF h1 h2 h3 h4]
  have emp: "[] \<in> set (build_keywords sample_casing [?d] [])"
    and all2: "list_all2 (\<lambda>w r. searched_drug w = product_name r)
           (check_contraindications sample_casing (\<lambda>ks. ks) ?rs [?d])
           (filter (\<lambda>r. strip (lower sample_casing (contraindication r)) \<noteq> NO_INFO) ?rs)"
    by blast+
  have "filter (\<lambda>r. strip (lower sample_casing (contraindication r)) \<noteq> NO_INFO) ?rs =
      [record_with (ascii ''A'') (ascii ''Take with water''),
       record_with (ascii ''C'') (ascii ''Avoid with Aspirin'')]"
    by (simp add: record_with_def ev)
  with list_all2_map_eq [OF all2]
  have "map searched_drug (check_contraindications sample_casing (\<lambda>ks. ks) ?rs [?d]) =
      map product_name [record_with (ascii ''A'') (ascii ''Take with water''),
       record_with (ascii ''C'') (ascii ''Avoid with Aspirin'')]"
    by simp
  then show ?thesis using h1 h3 emp by (simp add: record_with_def)
qed

section \<open>The label of a warning\<close>

text \<open>
  Claim C1. The medication list has one entry whose ingredient, lower-cased, is the
  lower-cased form of an ingredient value of \<open>DRUG_INGREDIENT_MAP\<close>, and the searched drug
  resolves to one record whose interaction text, which is not the sentinel, contains the
  lower-cased ingredient and not the lower-cased name. Then, for every iteration order of the
  index, the matcher gives exactly one warning, and its label is the composed label, the
  prefix \<open>LABEL_PREFIX\<close>, the upper-cased keyword and a closing bracket, not the capitalized
  keyword. The scenario of the specification is the first entry of the map: the drug
  \<open>TYLENOL_KO\<close> with the ingredient \<open>ACETAMINOPHEN_KO\<close>, as \<open>add_drug\<close> stores it, and an
  interaction text that names \<open>ACETAMINOPHEN_KO\<close>.
\<close>

theorem ingredient_keyword_gets_composed_label:
  assumes "set (iter (build_keywords C [m] [])) = set (build_keywords C [m] [])"
    and "strip (lower C (contraindication r)) \<noteq> NO_INFO"
    and "sublist (lower C (ingredient m)) (strip (lower C (contraindication r)))"
    and "\<not> sublist (lower C (name m)) (strip (lower C (contraindication r)))"
    and "lower C (ingredient m) \<noteq> NO_INGREDIENT"
    and "lower C (ingredient m) \<in> set (map (\<lambda>(k, v). lower C v) DRUG_INGREDIENT_MAP)"
  shows "\<exists>w. check_contraindications C iter [r] [m] = [w] \<and>
           searched_drug w = product_name r \<and>
           conflict_drug w = LABEL_PREFIX @ upper C (lower C (ingredient m)) @ ascii '')''"
proof -
  let ?ks = "iter (build_keywords C [m] [])"
  let ?g = "lower C (ingredient m)"
  have ks: "set ?ks \<subseteq> {lower C (name m), ?g}" and g: "?g \<in> set ?ks"
    using assms(5) unfolding assms(1) set_build_keywords by auto
  from g assms(2,3) have m: "matches C ?ks r" by (auto simp: matches_def)
  then obtain k where k: "first_match C ?ks r = Some k"
    using first_match_None_iff [of C ?ks r]
    by (cases "first_match C ?ks r") (auto simp: matches_def)
  from first_match_Some [OF k] ks assms(4) have "k = ?g" by auto
  with k m have "check_contraindications C iter [r] [m] = [warning_for C r ?g]"
    by (simp add: check_contraindications_def match_records_single del: match_records.simps)
  then show ?thesis using assms(6) by (simp add: warning_for_def conflict_label_def)
qed

theorem ingredient_keyword_gets_composed_label_witness:
  "add_drug sample_casing (Some TYLENOL_KO) None
     = Some [\<lparr>name = TYLENOL_KO, ingredient = ACETAMINOPHEN_KO\<rparr>]
   \<and> check_contraindications sample_casing (\<lambda>ks. ks)
     [record_with (ascii ''Aspirin'') (ascii ''Do not take with '' @ ACETAMINOPHEN_KO)]
     [\<lparr>name = TYLENOL_KO, ingredient = ACETAMINOPHEN_KO\<rparr>]
   = [\<lparr>searched_drug = Str (ascii ''Aspirin''),
       conflict_drug = LABEL_PREFIX @ ACETAMINOPHEN_KO @ ascii '')'',
       info = ascii ''Do not take with <b>'' @ ACETAMINOPHEN_KO @ ascii ''</b>''\<rparr>]"
proof -
  let ?m = "\<lparr>name = TYLENOL_KO, ingredient = ACETAMINOPHEN_KO\<rparr>"
  let ?r = "record_with (ascii ''Aspirin'') (ascii ''Do not take with '' @ ACETAMINOPHEN_KO)"
  let ?C = sample_casing
  have h1: "set ((\<lambda>ks. ks) (build_keywords ?C [?m] [])) = set (build_keywords ?C [?m] [])"
    by simp
  have h2: "strip (lower ?C (contraindication ?r)) \<noteq> NO_INFO"
    by (simp add: record_with_def ev)
  have h3: "sublist (lower ?C (ingredient ?m)) (strip (lower ?C (contraindication ?r)))"
    by (simp add: record_with_def ev)
  have h4: "\<not> sublist (lower ?C (name ?m)) (strip (lower ?C (contraindication ?r)))"
    by (simp add: record_with_def ev)
  have h5: "lower ?C (ingredient ?m) \<noteq> NO_INGREDIENT" by (simp add: ev)
  have h6: "lower ?C (ingredient ?m) \<in> set (map (\<lambda>(k, v). lower ?C v) DRUG_INGREDIENT_MAP)"
    by (simp add: ev)
  from ingredient_keyword_gets_composed_label [of "\<lambda>ks. ks" ?C ?m ?r, OF h1 h2 h3 h4 h5 h6]
  obtain w where w: "check_contraindications ?C (\<lambda>ks. ks) [?r] [?m] = [w]"
    and "conflict_drug w = LABEL_PREFIX @ ACETAMINOPHEN_KO @ ascii '')''"
    by (auto simp: ev)
  moreover have "info (hd (check_contraindications ?C (\<lambda>ks. ks) [?r] [?m]))
      = ascii ''Do not take with <b>'' @ ACETAMINOPHEN_KO @ ascii ''</b>''"
    and "searched_drug (hd (check_contraindications ?C (\<lambda>ks. ks) [?r] [?m]))
      = Str (ascii ''Aspirin'')"
    by (simp_all add: record_with_def ev)
  ultimately have "check_contraindications ?C (\<lambda>ks. ks) [?r] [?m]
   = [\<lparr>searched_drug = Str (ascii ''Aspirin''),
       conflict_drug = LABEL_PREFIX @ ACETAMINOPHEN_KO @ ascii '')'',
       info = ascii ''Do not take with <b>'' @ ACETAMINOPHEN_KO @ ascii ''</b>''\<rparr>]"
    by (cases w) simp
  moreover have "add_drug ?C (Some TYLENOL_KO) None = Some [?m]"
    by (simp add: add_drug_def ev)
  ultimately show ?thesis by simp
qed

section \<open>The medication list\<close>

lemma add_drug_eq:
  "add_drug C raw session =
     Some (if trimmed_input raw = [] \<or>
              lower C (capitalize C (trimmed_input raw))
                \<in> (\<lambda>d. lower C (name d)) ` set (current_drugs session)
           then current_drugs session
           else current_drugs session @
                  [\<lparr>name = capitalize C (trimmed_input raw),
                    ingredient =
                      (case map_of DRUG_INGREDIENT_MAP (capitalize C (trimmed_input raw)) of
                         None \<Rightarrow> NO_INGREDIENT | Some v \<Rightarrow> v)\<rparr>])"
  by (cases raw; cases session)
     (auto simp: add_drug_def trimmed_input_def current_drugs_def Let_def strip_Nil)

lemma unique_names_filter: "unique_names C l \<Longrightarrow> unique_names C (filter P l)"
  by (simp add: unique_names_def distinct_map_filter)

lemma unique_names_add: "unique_names C (current_drugs session) \<Longrightarrow>
    unique_names C (current_drugs (add_drug C raw session))"
  by (auto simp: add_drug_eq current_drugs_def unique_names_def)

lemma unique_names_remove: "unique_names C (current_drugs session) \<Longrightarrow>
    unique_names C (current_drugs (remove_drug C unquote n session))"
  by (cases session) (simp_all add: remove_drug_def current_drugs_def unique_names_filter)

lemma unique_names_clear: "unique_names C (current_drugs (clear_drugs session))"
  by (simp add: clear_drugs_def current_drugs_def unique_names_def)

text \<open>
  Claim C8, as the code has it. The name of the entry to add is the capitalized trimmed
  input. \<open>add_drug\<close> leaves the list as it is when the trimmed input is empty (the form field
  absent, empty or white space) or when the lower-cased name of the entry to add is the
  lower-cased name of an entry of the list; otherwise it appends exactly one entry, with that
  name and with the value of \<open>DRUG_INGREDIENT_MAP\<close> for that name as its ingredient, or
  \<open>NO_INGREDIENT\<close> when the map has none. A list without two entries of the same lower-cased
  name stays so under \<open>add_drug\<close>, \<open>remove_drug\<close> and \<open>clear_drugs\<close>.
\<close>

theorem add_drug_appends_or_keeps:
  "add_drug C raw session =
     Some (if trimmed_input raw = [] \<or>
              lower C (capitalize C (trimmed_input raw))
                \<in> (\<lambda>d. lower C (name d)) ` set (current_drugs session)
           then current_drugs session
           else current_drugs session @
                  [\<lparr>name = capitalize C (trimmed_input raw),
                    ingredient =
                      (case map_of DRUG_INGREDIENT_MAP (capitalize C (trimmed_input raw)) of
                         None \<Rightarrow> NO_INGREDIENT | Some v \<Rightarrow> v)\<rparr>])
   \<and> (unique_names C (current_drugs session) \<longrightarrow>
        unique_names C (current_drugs (add_drug C raw session)) \<and>
        unique_names C (current_drugs (remove_drug C unquote drug_name session)) \<and>
        unique_names C (current_drugs (clear_drugs session)))"
  using add_drug_eq unique_names_add unique_names_remove unique_names_clear by blast

text \<open>
  In the example the list holds a name with the capital \<open>U+00C9\<close>; the input with the small
  \<open>U+00E9\<close> is the same name and is not added, the Korean name of Tylenol is added with its
  ingredient.
\<close>

theorem add_drug_appends_or_keeps_witness:
  "unique_names sample_casing
     (current_drugs (Some [\<lparr>name = 0xC9 # ascii ''fferalgan'', ingredient = NO_INGREDIENT\<rparr>]))
   \<and> add_drug sample_casing (Some (ascii '' '' @ 0xE9 # ascii ''FFERALGAN ''))
       (Some [\<lparr>name = 0xC9 # ascii ''fferalgan'', ingredient = NO_INGREDIENT\<rparr>])
     = Some [\<lparr>name = 0xC9 # ascii ''fferalgan'', ingredient = NO_INGREDIENT\<rparr>]
   \<and> add_drug sample_casing (Some TYLENOL_KO)
       (Some [\<lparr>name = 0xC9 # ascii ''fferalgan'', ingredient = NO_INGREDIENT\<rparr>])
     = Some [\<lparr>name = 0xC9 # ascii ''fferalgan'', ingredient = NO_INGREDIENT\<rparr>,
             \<lparr>name = TYLENOL_KO, ingredient = ACETAMINOPHEN_KO\<rparr>]
   \<and> unique_names sample_casing (current_drugs
        (add_drug sample_casing (Some TYLENOL_KO)
           (Some [\<lparr>name = 0xC9 # ascii ''fferalgan'', ingredient = NO_INGREDIENT\<rparr>])))"
proof -
  let ?s = "Some [\<lparr>name = 0xC9 # ascii ''fferalgan'', ingredient = NO_INGREDIENT\<rparr>]"
  let ?C = sample_casing
  have u: "unique_names ?C (current_drugs ?s)"
    by (simp add: unique_names_def current_drugs_def)
  from add_drug_appends_or_keeps [of ?C "Some (ascii '' '' @ 0xE9 # ascii ''FFERALGAN '')" ?s]
  have a: "add_drug ?C (Some (ascii '' '' @ 0xE9 # ascii ''FFERALGAN '')) ?s = ?s"
    by (simp add: trimmed_input_def current_drugs_def ev)
  from add_drug_appends_or_keeps [of ?C "Some TYLENOL_KO" ?s "\<lambda>s. s" "[]"] u
  have c: "unique_names ?C (current_drugs (add_drug ?C (Some TYLENOL_KO) ?s))"
    by blast
  have b: "add_drug ?C (Some TYLENOL_KO) ?s
     = Some [\<lparr>name = 0xC9 # ascii ''fferalgan'', ingredient = NO_INGREDIENT\<rparr>,
             \<lparr>name = TYLENOL_KO, ingredient = ACETAMINOPHEN_KO\<rparr>]"
    by (simp add: add_drug_def ev)
  from u a b c show ?thesis by blast
qed

text \<open>
  Claim C8 as it is written fails for an input that is empty after trimming: no entry of the
  empty list has the name of the entry to add, and nothing is appended.
\<close>

theorem add_drug_blank_counterexample:
  "lower sample_casing (capitalize sample_casing (trimmed_input (Some (ascii '' ''))))
     \<notin> (\<lambda>d. lower sample_casing (name d)) ` set (current_drugs (Some []))
   \<and> add_drug sample_casing (Some (ascii '' '')) (Some []) = Some []
   \<and> add_drug sample_casing (Some []) (Some []) = Some []
   \<and> add_drug sample_casing None (Some []) = Some []"
  by (simp add: add_drug_def current_drugs_def ev)

text \<open>
  Claim C9. \<open>remove_drug\<close> keeps exactly the entries whose lower-cased name differs from the
  lower-cased decoded name of the request, unchanged and in their order; two requests whose
  decoded names have the same lower-cased form remove the same entries.
\<close>

theorem remove_drug_case_insensitive:
  "remove_drug C unquote drug_name (Some my_drugs) =
     Some (filter (\<lambda>d. lower C (name d) \<noteq> lower C (unquote drug_name)) my_drugs)
   \<and> subseq (current_drugs (remove_drug C unquote drug_name (Some my_drugs))) my_drugs
   \<and> (lower C (unquote other) = lower C (unquote drug_name) \<longrightarrow>
        remove_drug C unquote other session = remove_drug C unquote drug_name session)"
  by (cases session) (simp_all add: remove_drug_def current_drugs_def)

theorem remove_drug_case_insensitive_witness:
  "lower sample_casing ((\<lambda>s. s) (0xC9 # ascii ''FFERALGAN''))
     = lower sample_casing ((\<lambda>s. s) (0xE9 # ascii ''fferalgan''))
   \<and> remove_drug sample_casing (\<lambda>s. s) (0xE9 # ascii ''fferalgan'')
       (Some [\<lparr>name = ascii ''Aspirin'', ingredient = NO_INGREDIENT\<rparr>,
              \<lparr>name = 0xC9 # ascii ''fferalgan'', ingredient = NO_INGREDIENT\<rparr>,
              \<lparr>name = ascii ''Advil'', ingredient = NO_INGREDIENT\<rparr>])
     = Some [\<lparr>name = ascii ''Aspirin'', ingredient = NO_INGREDIENT\<rparr>,
             \<lparr>name = ascii ''Advil'', ingredient = NO_INGREDIENT\<rparr>]
   \<and> remove_drug sample_casing (\<lambda>s. s) (0xC9 # ascii ''FFERALGAN'')
       (Some [\<lparr>name = ascii ''Aspirin'', ingredient = NO_INGREDIENT\<rparr>,
              \<lparr>name = 0xC9 # ascii ''fferalgan'', ingredient = NO_INGREDIENT\<rparr>,
              \<lparr>name = ascii ''Advil'', ingredient = NO_INGREDIENT\<rparr>])
     = Some [\<lparr>name = ascii ''Aspirin'', ingredient = NO_INGREDIENT\<rparr>,
             \<lparr>name = ascii ''Advil'', ingredient = NO_INGREDIENT\<rparr>]"
proof -
  let ?l = "[\<lparr>name = ascii ''Aspirin'', ingredient = NO_INGREDIENT\<rparr>,
              \<lparr>name = 0xC9 # ascii ''fferalgan'', ingredient = NO_INGREDIENT\<rparr>,
              \<lparr>name = ascii ''Advil'', ingredient = NO_INGREDIENT\<rparr>]"
  let ?C = sample_casing
  have h: "lower ?C ((\<lambda>s. s) (0xC9 # ascii ''FFERALGAN''))
      = lower ?C ((\<lambda>s. s) (0xE9 # ascii ''fferalgan''))"
    by (simp add: ev)
  from remove_drug_case_insensitive
         [of ?C "\<lambda>s. s" "0xE9 # ascii ''fferalgan''" ?l "0xC9 # ascii ''FFERALGAN''" "Some ?l"] h
  have a: "remove_drug ?C (\<lambda>s. s) (0xE9 # ascii ''fferalgan'') (Some ?l) =
      Some (filter (\<lambda>d. lower ?C (name d) \<noteq> lower ?C (0xE9 # ascii ''fferalgan'')) ?l)"
    and b: "remove_drug ?C (\<lambda>s. s) (0xC9 # ascii ''FFERALGAN'') (Some ?l) =
      remove_drug ?C (\<lambda>s. s) (0xE9 # ascii ''fferalgan'') (Some ?l)"
    by blast+
  have "filter (\<lambda>d. lower ?C (name d) \<noteq> lower ?C (0xE9 # ascii ''fferalgan'')) ?l
      = [\<lparr>name = ascii ''Aspirin'', ingredient = NO_INGREDIENT\<rparr>,
         \<lparr>name = ascii ''Advil'', ingredient = NO_INGREDIENT\<rparr>]"
    by (simp add: ev)
  with a b h show ?thesis by simp
qed

section \<open>The resolver\<close>

lemma extract_all_Obj:
  "\<exists>rs. extract_all C (map Obj ds) nm = Inr rs \<and>
     list_all2 (\<lambda>r d. extract_drug_info C (Obj d) nm = Inr r \<and>
        product_name r = (case d (ascii ''itemName'') of None \<Rightarrow> Str nm | Some v \<Rightarrow> v)) rs ds"
proof (induction ds)
  case Nil
  show ?case by simp
next
  case (Cons d ds)
  then obtain rs where rs: "extract_all C (map Obj ds) nm = Inr rs"
    "list_all2 (\<lambda>r d. extract_drug_info C (Obj d) nm = Inr r \<and>
        product_name r = (case d (ascii ''itemName'') of None \<Rightarrow> Str nm | Some v \<Rightarrow> v)) rs ds"
    by blast
  obtain r where r: "extract_drug_info C (Obj d) nm = Inr r"
    "product_name r = (case d (ascii ''itemName'') of None \<Rightarrow> Str nm | Some v \<Rightarrow> v)"
    by (simp add: extract_drug_info_Obj del: safe_extract.simps)
  have "extract_all C (map Obj (d # ds)) nm = Inr (r # rs)"
    using r(1) rs(1) by (simp add: bind_err_def)
  with r rs(2) show ?case by auto
qed

lemma perform_search_items:
  assumes "get ps = service_items code ds" and "code = ascii ''00'' \<or> code = ascii ''0''"
    and "ds \<noteq> []"
  shows "\<exists>rs. perform_search C get ps nm True = (Some rs, [ps]) \<and>
     list_all2 (\<lambda>r d. extract_drug_info C (Obj d) nm = Inr r \<and>
        product_name r = (case d (ascii ''itemName'') of None \<Rightarrow> Str nm | Some v \<Rightarrow> v)) rs ds"
proof -
  from extract_all_Obj [of C ds nm] obtain rs where rs: "extract_all C (map Obj ds) nm = Inr rs"
    "list_all2 (\<lambda>r d. extract_drug_info C (Obj d) nm = Inr r \<and>
        product_name r = (case d (ascii ''itemName'') of None \<Rightarrow> Str nm | Some v \<Rightarrow> v)) rs ds"
    by blast
  have "perform_search C get ps nm True = (Some rs, [ps])"
    using assms rs(1) by (auto simp: perform_search_def service_items_def bind_err_def)
  with rs(2) show ?thesis by blast
qed

lemma perform_search_log: "snd (perform_search C get ps nm multi) = [ps]"
  by (simp add: perform_search_def split: sum.splits)

lemma perform_search_caught:
  "search_try C (get ps) nm multi = Inl e \<Longrightarrow> perform_search C get ps nm multi = (None, [ps])"
  by (simp add: perform_search_def)

text \<open>The check of the result code accepts the strings \<open>00\<close> and \<open>0\<close> and nothing else.\<close>

lemma result_code_ok_iff:
  "result_code_ok code \<longleftrightarrow> code = Str (ascii ''00'') \<or> code = Str (ascii ''0'')"
  by (cases code) auto

lemma search_try_fails:
  "stage_fails resp \<Longrightarrow>
     search_try C resp nm multi = Inr None \<or> (\<exists>e. search_try C resp nm multi = Inl e)"
  by (induction resp rule: stage_fails.induct)
     (auto simp: result_code_ok_iff elim: no_items.elims)

lemma perform_search_fails:
  "stage_fails (get ps) \<Longrightarrow> perform_search C get ps nm multi = (None, [ps])"
  using search_try_fails [of "get ps" C nm multi] by (auto simp: perform_search_def)

lemma stage_fails_service_items:
  "stage_fails (service_items code ds) \<longleftrightarrow> (code \<noteq> ascii ''00'' \<and> code \<noteq> ascii ''0'') \<or> ds = []"
  by (simp add: service_items_def)

lemma search_drug_info_eq:
  assumes "key \<noteq> []"
  shows "search_drug_info C quote get (Some key) nm =
    (let p1 = search_params key (ascii ''itemName'') (quote nm);
         p2 = search_params key (ascii ''ingrName'') (quote nm);
         r1 = fst (perform_search C get p1 nm True);
         r2 = fst (perform_search C get p2 nm True)
     in if truthy r1 then (r1, [p1]) else if truthy r2 then (r2, [p1, p2]) else (None, [p1, p2]))"
  using assms perform_search_log [of C get _ nm True]
  by (simp add: search_drug_info_def Let_def split_beta)

lemma search_params_lookup:
  "map_of (search_params key (ascii ''itemName'') enc) (ascii ''itemName'') = Some enc"
  "map_of (search_params key (ascii ''ingrName'') enc) (ascii ''ingrName'') = Some enc"
  "map_of (search_params key (ascii ''itemName'') enc) (ascii ''numOfRows'') = Some (ascii ''3'')"
  "map_of (search_params key (ascii ''ingrName'') enc) (ascii ''numOfRows'') = Some (ascii ''3'')"
  by (simp_all add: search_params_def ascii_def)

text \<open>
  Claim C5. With a lookup key set, the resolver first issues the query with the \<open>itemName\<close>
  filter; when that stage gives at least one record the result is that list and the log
  holds that query only; otherwise it issues the query with the \<open>ingrName\<close> filter, and the
  result is the list of that stage, or \<open>None\<close> when it gives none either. Both queries carry
  the encoded name under their filter and \<open>numOfRows = 3\<close>. A response with an accepted result
  code and a non-empty list of items gives the normalized items in the order of the service,
  the name of each being its \<open>itemName\<close>, or the name that was searched when the item has
  none.
\<close>

theorem two_stage_resolution:
  assumes "key \<noteq> []"
  shows "(let p1 = search_params key (ascii ''itemName'') (quote nm);
              p2 = search_params key (ascii ''ingrName'') (quote nm);
              r1 = fst (perform_search C get p1 nm True);
              r2 = fst (perform_search C get p2 nm True)
          in search_drug_info C quote get (Some key) nm =
               (if truthy r1 then (r1, [p1])
                else if truthy r2 then (r2, [p1, p2]) else (None, [p1, p2])) \<and>
             map_of p1 (ascii ''itemName'') = Some (quote nm) \<and>
             map_of p2 (ascii ''ingrName'') = Some (quote nm) \<and>
             map_of p1 (ascii ''numOfRows'') = Some (ascii ''3'') \<and>
             map_of p2 (ascii ''numOfRows'') = Some (ascii ''3''))
         \<and> (get ps = service_items code ds \<and> (code = ascii ''00'' \<or> code = ascii ''0'') \<and> ds \<noteq> []
              \<longrightarrow> (\<exists>rs. perform_search C get ps nm True = (Some rs, [ps]) \<and>
                    list_all2 (\<lambda>r d. extract_drug_info C (Obj d) nm = Inr r \<and>
                       product_name r =
                         (case d (ascii ''itemName'') of None \<Rightarrow> Str nm | Some v \<Rightarrow> v)) rs ds))"
proof
  show "let p1 = search_params key (ascii ''itemName'') (quote nm);
              p2 = search_params key (ascii ''ingrName'') (quote nm);
              r1 = fst (perform_search C get p1 nm True);
              r2 = fst (perform_search C get p2 nm True)
          in search_drug_info C quote get (Some key) nm =
               (if truthy r1 then (r1, [p1])
                else if truthy r2 then (r2, [p1, p2]) else (None, [p1, p2])) \<and>
             map_of p1 (ascii ''itemName'') = Some (quote nm) \<and>
             map_of p2 (ascii ''ingrName'') = Some (quote nm) \<and>
             map_of p1 (ascii ''numOfRows'') = Some (ascii ''3'') \<and>
             map_of p2 (ascii ''numOfRows'') = Some (ascii ''3'')"
    using search_drug_info_eq [OF assms, of C quote get nm]
    by (simp add: Let_def search_params_lookup)
  show "get ps = service_items code ds \<and> (code = ascii ''00'' \<or> code = ascii ''0'') \<and> ds \<noteq> []
              \<longrightarrow> (\<exists>rs. perform_search C get ps nm True = (Some rs, [ps]) \<and>
                    list_all2 (\<lambda>r d. extract_drug_info C (Obj d) nm = Inr r \<and>
                       product_name r =
                         (case d (ascii ''itemName'') of None \<Rightarrow> Str nm | Some v \<Rightarrow> v)) rs ds)"
    using perform_search_items [of get ps code ds C nm] by blast
qed

lemmas ev_search = perform_search_def service_items_def bind_err_def extract_drug_info.simps
  search_params_def record_with_def example_item_def nameless_item_def

theorem two_stage_resolution_witness:
  "ascii ''k'' \<noteq> []
   \<and> search_drug_info sample_casing (\<lambda>s. s) service_by_name (Some (ascii ''k'')) (ascii ''aspirin'')
     = (Some [record_with (ascii ''Bayer'') (ascii ''Avoid with Aspirin''),
              record_with (ascii ''aspirin'') NO_INFO],
        [search_params (ascii ''k'') (ascii ''itemName'') (ascii ''aspirin'')])
   \<and> search_drug_info sample_casing (\<lambda>s. s) service_by_ingredient (Some (ascii ''k''))
       (ascii ''aspirin'')
     = (Some [record_with (ascii ''Bayer'') (ascii ''Avoid with Aspirin'')],
        [search_params (ascii ''k'') (ascii ''itemName'') (ascii ''aspirin''),
         search_params (ascii ''k'') (ascii ''ingrName'') (ascii ''aspirin'')])"
proof -
  let ?p1 = "search_params (ascii ''k'') (ascii ''itemName'') (ascii ''aspirin'')"
  let ?p2 = "search_params (ascii ''k'') (ascii ''ingrName'') (ascii ''aspirin'')"
  let ?C = sample_casing
  have h: "ascii ''k'' \<noteq> []" by (simp add: ascii_def)
  have a1: "fst (perform_search ?C service_by_name ?p1 (ascii ''aspirin'') True)
      = Some [record_with (ascii ''Bayer'') (ascii ''Avoid with Aspirin''),
              record_with (ascii ''aspirin'') NO_INFO]"
    by (simp add: service_by_name_def ev_search ev)
  have b1: "fst (perform_search ?C service_by_ingredient ?p1 (ascii ''aspirin'') True) = None"
    by (simp add: service_by_ingredient_def ev_search ev)
  have b2: "fst (perform_search ?C service_by_ingredient ?p2 (ascii ''aspirin'') True)
      = Some [record_with (ascii ''Bayer'') (ascii ''Avoid with Aspirin'')]"
    by (simp add: service_by_ingredient_def ev_search ev)
  from two_stage_resolution
         [OF h, where C = ?C and quote = "\<lambda>s. s" and get = service_by_name
            and nm = "ascii ''aspirin''"] a1
  have a: "search_drug_info ?C (\<lambda>s. s) service_by_name (Some (ascii ''k'')) (ascii ''aspirin'')
     = (Some [record_with (ascii ''Bayer'') (ascii ''Avoid with Aspirin''),
              record_with (ascii ''aspirin'') NO_INFO], [?p1])"
    by (simp add: Let_def)
  from two_stage_resolution
         [OF h, where C = ?C and quote = "\<lambda>s. s" and get = service_by_ingredient
            and nm = "ascii ''aspirin''"]
       b1 b2
  have b: "search_drug_info ?C (\<lambda>s. s) service_by_ingredient (Some (ascii ''k''))
       (ascii ''aspirin'')
     = (Some [record_with (ascii ''Bayer'') (ascii ''Avoid with Aspirin'')], [?p1, ?p2])"
    by (simp add: Let_def)
  from h a b show ?thesis by blast
qed

text \<open>
  Claim C6. The resolver returns \<open>None\<close> and issues no query when the lookup key is unset or
  empty. Every exception raised inside \<open>perform_search\<close> is caught and gives \<open>None\<close>, and so
  does every failing response: a request or status check that raises, a body that is not JSON,
  a missing header, a result code other than the strings \<open>00\<close> and \<open>0\<close> even when items come
  with it, missing or empty items. When both stages fail the resolver returns \<open>None\<close>.
\<close>

theorem resolution_never_raises:
  "(key_unset SERVICE_KEY \<longrightarrow> search_drug_info C quote get SERVICE_KEY nm = (None, []))
   \<and> (search_try C (get ps) nm multi = Inl e \<longrightarrow> perform_search C get ps nm multi = (None, [ps]))
   \<and> (stage_fails (get ps) \<longrightarrow> perform_search C get ps nm multi = (None, [ps]))
   \<and> (get ps = service_items code ds \<and> code \<noteq> ascii ''00'' \<and> code \<noteq> ascii ''0''
        \<longrightarrow> perform_search C get ps nm multi = (None, [ps]))
   \<and> (key \<noteq> [] \<and> stage_fails (get (search_params key (ascii ''itemName'') (quote nm))) \<and>
        stage_fails (get (search_params key (ascii ''ingrName'') (quote nm)))
        \<longrightarrow> search_drug_info C quote get (Some key) nm =
              (None, [search_params key (ascii ''itemName'') (quote nm),
                      search_params key (ascii ''ingrName'') (quote nm)]))"
proof (intro conjI impI)
  assume "key_unset SERVICE_KEY"
  then show "search_drug_info C quote get SERVICE_KEY nm = (None, [])"
    by (auto simp: key_unset_def search_drug_info_def)
next
  assume "search_try C (get ps) nm multi = Inl e"
  then show "perform_search C get ps nm multi = (None, [ps])" by (rule perform_search_caught)
next
  assume "stage_fails (get ps)"
  then show "perform_search C get ps nm multi = (None, [ps])" by (rule perform_search_fails)
next
  assume "get ps = service_items code ds \<and> code \<noteq> ascii ''00'' \<and> code \<noteq> ascii ''0''"
  then have "stage_fails (get ps)" by (simp add: stage_fails_service_items)
  then show "perform_search C get ps nm multi = (None, [ps])" by (rule perform_search_fails)
next
  assume a: "key \<noteq> [] \<and> stage_fails (get (search_params key (ascii ''itemName'') (quote nm))) \<and>
        stage_fails (get (search_params key (ascii ''ingrName'') (quote nm)))"
  then have "perform_search C get (search_params key (ascii ''itemName'') (quote nm)) nm True
               = (None, [search_params key (ascii ''itemName'') (quote nm)])"
    and "perform_search C get (search_params key (ascii ''ingrName'') (quote nm)) nm True
               = (None, [search_params key (ascii ''ingrName'') (quote nm)])"
    by (simp_all add: perform_search_fails)
  with a show "search_drug_info C quote get (Some key) nm =
              (None, [search_params key (ascii ''itemName'') (quote nm),
                      search_params key (ascii ''ingrName'') (quote nm)])"
    by (simp add: search_drug_info_eq Let_def)
qed

text \<open>
  In the example the last service sends a well-formed item under the result code \<open>99\<close> in
  both stages, and the resolver returns \<open>None\<close>.
\<close>

theorem resolution_never_raises_witness:
  "key_unset (Some [])
   \<and> search_drug_info sample_casing (\<lambda>s. s) service_by_name (Some []) (ascii ''aspirin'')
     = (None, [])
   \<and> search_try sample_casing (Json DataOther) (ascii ''aspirin'') True = Inl AttributeError
   \<and> perform_search sample_casing (\<lambda>ps. Json DataOther) [] (ascii ''aspirin'') True = (None, [[]])
   \<and> stage_fails (service_down (search_params (ascii ''k'') (ascii ''itemName'') (ascii ''aspirin'')))
   \<and> stage_fails (service_down (search_params (ascii ''k'') (ascii ''ingrName'') (ascii ''aspirin'')))
   \<and> search_drug_info sample_casing (\<lambda>s. s) service_down (Some (ascii ''k'')) (ascii ''aspirin'')
     = (None, [search_params (ascii ''k'') (ascii ''itemName'') (ascii ''aspirin''),
               search_params (ascii ''k'') (ascii ''ingrName'') (ascii ''aspirin'')])
   \<and> service_refusing [] = service_items (ascii ''99'') [example_item]
   \<and> perform_search sample_casing service_refusing [] (ascii ''aspirin'') True = (None, [[]])
   \<and> search_drug_info sample_casing (\<lambda>s. s) service_refusing (Some (ascii ''k''))
       (ascii ''aspirin'')
     = (None, [search_params (ascii ''k'') (ascii ''itemName'') (ascii ''aspirin''),
               search_params (ascii ''k'') (ascii ''ingrName'') (ascii ''aspirin'')])"
proof -
  let ?p1 = "search_params (ascii ''k'') (ascii ''itemName'') (ascii ''aspirin'')"
  let ?p2 = "search_params (ascii ''k'') (ascii ''ingrName'') (ascii ''aspirin'')"
  let ?C = sample_casing
  have k: "ascii ''k'' \<noteq> []" by (simp add: ascii_def)
  have u: "key_unset (Some [])" by (simp add: key_unset_def)
  have e: "search_try ?C ((\<lambda>ps. Json DataOther) []) (ascii ''aspirin'') True = Inl AttributeError"
    by simp
  have f1: "stage_fails (service_down ?p1)" by (simp add: service_down_def search_params_def ev)
  have f2: "stage_fails (service_down ?p2)" by (simp add: service_down_def search_params_def ev)
  have g: "service_refusing ps = service_items (ascii ''99'') [example_item]" for ps
    by (simp add: service_refusing_def)
  have n: "ascii ''99'' \<noteq> ascii ''00'' \<and> ascii ''99'' \<noteq> ascii ''0''" by (simp add: ascii_def)
  have g1: "stage_fails (service_refusing ?p1)" and g2: "stage_fails (service_refusing ?p2)"
    using n by (simp_all add: g stage_fails_service_items)
  from resolution_never_raises
         [where SERVICE_KEY = "Some []" and C = ?C and quote = "\<lambda>s. s" and get = service_by_name
            and nm = "ascii ''aspirin''"] u
  have a: "search_drug_info ?C (\<lambda>s. s) service_by_name (Some []) (ascii ''aspirin'') = (None, [])"
    by blast
  from resolution_never_raises
         [where C = ?C and get = "\<lambda>ps. Json DataOther" and ps = "[]" and nm = "ascii ''aspirin''"
            and multi = True and e = AttributeError] e
  have b: "perform_search ?C (\<lambda>ps. Json DataOther) [] (ascii ''aspirin'') True = (None, [[]])"
    by blast
  from resolution_never_raises
         [where C = ?C and key = "ascii ''k''" and quote = "\<lambda>s. s" and get = service_down
            and nm = "ascii ''aspirin''"] k f1 f2
  have c: "search_drug_info ?C (\<lambda>s. s) service_down (Some (ascii ''k'')) (ascii ''aspirin'')
     = (None, [?p1, ?p2])"
    by blast
  from resolution_never_raises
         [where C = ?C and get = service_refusing and ps = "[]" and nm = "ascii ''aspirin''"
            and multi = True and code = "ascii ''99''" and ds = "[example_item]"] g [of "[]"] n
  have d: "perform_search ?C service_refusing [] (ascii ''aspirin'') True = (None, [[]])"
    by blast
  from resolution_never_raises
         [where C = ?C and key = "ascii ''k''" and quote = "\<lambda>s. s" and get = service_refusing
            and nm = "ascii ''aspirin''"] k g1 g2
  have f: "search_drug_info ?C (\<lambda>s. s) service_refusing (Some (ascii ''k'')) (ascii ''aspirin'')
     = (None, [?p1, ?p2])"
    by blast
  from u a e b f1 f2 c g [of "[]"] d f show ?thesis by simp
qed

end
